theory Spec2Isabelle
  imports Complex_Main "HOL-Library.Multiset"
begin

section \<open>Exceptions\<close>

text \<open>
  The Python exceptions the four source files raise or let through, as values.
  \<open>HTTPException\<close> carries the status code given at the \<open>raise\<close>;
  \<open>LibraryError\<close> stands for any exception raised inside a library call
  (file I/O, PyPDF2, PyMuPDF, pytesseract, the embeddings client).
\<close>

datatype error =
    ValueError
  | FileNotFoundError
  | LibraryError
  | HTTPException nat

section \<open>The chunker (background\_tasks.py, TextProcessor.chunk\_and\_embed, lines 23-27)\<close>

text \<open>
  \<open>range(0, stop, step)\<close>: the loop that produces the indices, started at \<open>i\<close>.
\<close>

function range_from :: "nat \<Rightarrow> nat \<Rightarrow> nat \<Rightarrow> nat list" where
  "range_from i stop step =
     (if 0 < step \<and> i < stop then i # range_from (i + step) stop step else [])"
  by pat_completeness auto
termination
  by (relation "measure (\<lambda>(i, stop, step). stop - i)") auto

declare range_from.simps [simp del]

text \<open>
  Python's \<open>range(0, stop, step)\<close> for \<open>stop = len(...)\<close>: a zero step raises
  ValueError, a negative step counts down from 0 and is empty since \<open>stop \<ge> 0\<close>.
\<close>

definition py_range :: "nat \<Rightarrow> int \<Rightarrow> error + nat list" where
  "py_range stop step =
     (if step = 0 then Inl ValueError
      else if step < 0 then Inr []
      else Inr (range_from 0 stop (nat step)))"

text \<open>
  The slice \<open>xs[a:b]\<close> for a start \<open>a \<ge> 0\<close>: a negative \<open>b\<close> counts from the end,
  both bounds are clamped to the list.
\<close>

definition py_slice :: "nat \<Rightarrow> int \<Rightarrow> 'a list \<Rightarrow> 'a list" where
  "py_slice a b xs =
     (let b' = (if b < 0 then nat (int (length xs) + b) else nat b)
      in drop a (take b' xs))"

text \<open>\<open>' '.join(xs)\<close>\<close>

fun join :: "string list \<Rightarrow> string" where
  "join [] = []"
| "join [x] = x"
| "join (x # y # ys) = x @ '' '' @ join (y # ys)"

text \<open>\<open>s.split(sep)\<close> for a one-character separator: never empty, \<open>''.split('.') = ['']\<close>.\<close>

fun str_split :: "char \<Rightarrow> string \<Rightarrow> string list" where
  "str_split sep [] = [[]]"
| "str_split sep (c # cs) =
     (if c = sep then [] # str_split sep cs
      else (case str_split sep cs of
              w # ws \<Rightarrow> (c # w) # ws
            | [] \<Rightarrow> [[c]]))"

text \<open>
  Lines 26-27: the list comprehension over \<open>range(0, len(sentences), chunk_size)\<close>.
\<close>

definition chunks_of :: "int \<Rightarrow> string list \<Rightarrow> error + string list" where
  "chunks_of chunk_size sentences =
     (case py_range (length sentences) chunk_size of
        Inl e \<Rightarrow> Inl e
      | Inr idx \<Rightarrow>
          Inr (map (\<lambda>i. join (py_slice i (int i + chunk_size) sentences)) idx))"

text \<open>
  Lines 23-27. \<open>sent_tokenize\<close> is NLTK's sentence tokenizer, a library function:
  it is a parameter of the model.
\<close>

definition chunker :: "(string \<Rightarrow> string list) \<Rightarrow> int \<Rightarrow> string \<Rightarrow> error + string list" where
  "chunker sent_tokenize chunk_size text = chunks_of chunk_size (sent_tokenize text)"

subsection \<open>The reference definition of the specification\<close>

text \<open>
  Written from the specification's words, to be compared with \<open>chunks_of\<close>. The
  sentence sequence is cut into consecutive, non-overlapping groups of exactly \<open>n\<close>
  sentences, the final group holding the remainder.
\<close>

function groups_of :: "nat \<Rightarrow> 'a list \<Rightarrow> 'a list list" where
  "groups_of n xs =
     (if n = 0 \<or> xs = [] then [] else take n xs # groups_of n (drop n xs))"
  by pat_completeness auto
termination
  by (relation "measure (\<lambda>(n, xs). length xs)") auto

declare groups_of.simps [simp del]

text \<open>
  A group's sentences joined with a single space: the first sentence as it is, then each
  further sentence with one space before it.
\<close>

definition single_space_join :: "string list \<Rightarrow> string" where
  "single_space_join g =
     (case g of
        [] \<Rightarrow> []
      | s # ss \<Rightarrow> s @ concat (map (\<lambda>t. CHR '' '' # t) ss))"

definition chunk_ref :: "nat \<Rightarrow> string list \<Rightarrow> string list" where
  "chunk_ref n sentences = map single_space_join (groups_of n sentences)"

text \<open>Reversing the single-space join: a chunk's text cut at every space.\<close>

definition unjoin :: "string \<Rightarrow> string list" where
  "unjoin chunk = str_split CHR '' '' chunk"

section \<open>Text extraction (file\_parser.py)\<close>

subsection \<open>The libraries, as seen by the parsers\<close>

text \<open>
  A file is its bytes. What the libraries make of the bytes is outside the repository, so
  each library call is a parameter of the model; \<open>None\<close> is the call raising an exception.
  A \<open>PdfReader\<close> is what \<open>PyPDF2.PdfReader(file)\<close> exposes to \<open>PdfParser.parse\<close>:
  \<^item> \<open>is_encrypted\<close>: the attribute of that name;
  \<^item> \<open>decrypt_raises\<close>: whether \<open>reader.decrypt('')\<close> raises;
  \<^item> \<open>pages\<close>: \<open>None\<close> when \<open>len(reader.pages)\<close> raises, else one entry per page, the
    result of \<open>reader.pages[page_num].extract_text()\<close> (\<open>None\<close> when that raises).
\<close>

type_synonym bytes = string

record PdfReader =
  is_encrypted :: bool
  decrypt_raises :: bool
  pages :: "string option list option"

text \<open>
  \<^item> \<open>read_text\<close>: \<open>open(filepath, 'r')\<close> followed by \<open>file.read()\<close>;
  \<^item> \<open>open_pdf\<close>: \<open>open(filepath, 'rb')\<close> followed by \<open>PyPDF2.PdfReader(file)\<close>;
  \<^item> \<open>ocr_image\<close>: the body of \<open>_ocr_page\<close>, from \<open>fitz.open(filepath)\<close> to
    \<open>pytesseract.image_to_string(img)\<close>, for one page number.
\<close>

record libs =
  read_text :: "bytes \<Rightarrow> string option"
  open_pdf :: "bytes \<Rightarrow> PdfReader option"
  ocr_image :: "bytes \<Rightarrow> nat \<Rightarrow> string option"

text \<open>The library calls \<open>PdfParser.parse\<close> makes on the document, in the order made.\<close>

datatype event = Decrypt | ExtractText nat | OcrPage nat

subsection \<open>PdfParser\<close>

text \<open>\<open>PdfParser._ocr_page\<close>, lines 44-55: the handler turns any exception into a string.\<close>

definition ocr_page :: "libs \<Rightarrow> bytes \<Rightarrow> nat \<Rightarrow> string" where
  "ocr_page L data page_num =
     (case ocr_image L data page_num of
        Some ocr_text \<Rightarrow> ocr_text
      | None \<Rightarrow> ''Error in OCR processing'')"

text \<open>
  Lines 33-38, the loop over the pages from \<open>page_num\<close> on, with \<open>content\<close> the text
  collected so far and \<open>tr\<close> the calls made so far. An exception of \<open>extract_text\<close>
  leaves the loop.
\<close>

fun pages_loop ::
  "libs \<Rightarrow> bytes \<Rightarrow> string option list \<Rightarrow> nat \<Rightarrow> string \<Rightarrow> event list
     \<Rightarrow> (error + string) \<times> event list" where
  "pages_loop L data [] page_num content tr = (Inr content, tr)"
| "pages_loop L data (page # rest) page_num content tr =
     (case page of
        None \<Rightarrow> (Inl LibraryError, tr @ [ExtractText page_num])
      | Some page_content \<Rightarrow>
          if page_content = []
          then pages_loop L data rest (Suc page_num)
                 (content @ ocr_page L data page_num)
                 (tr @ [ExtractText page_num, OcrPage page_num])
          else pages_loop L data rest (Suc page_num)
                 (content @ page_content)
                 (tr @ [ExtractText page_num]))"

text \<open>
  Lines 23-39, the body of the outer \<open>try\<close>: \<open>Inl\<close> is an exception that reaches the
  outer handler, \<open>Inr\<close> a \<open>return\<close>.
\<close>

definition PdfParser_try :: "libs \<Rightarrow> bytes \<Rightarrow> (error + string) \<times> event list" where
  "PdfParser_try L data =
     (case open_pdf L data of
        None \<Rightarrow> (Inl LibraryError, [])
      | Some reader \<Rightarrow>
          if is_encrypted reader \<and> decrypt_raises reader
          then (Inr ''Unable to decrypt PDF'', [Decrypt])
          else
            (let tr = (if is_encrypted reader then [Decrypt] else [])
             in case pages reader of
                  None \<Rightarrow> (Inl LibraryError, tr)
                | Some ps \<Rightarrow> pages_loop L data ps 0 [] tr))"

text \<open>\<open>PdfParser.parse\<close>, lines 21-42, with the calls it made.\<close>

definition PdfParser_parse_traced :: "libs \<Rightarrow> bytes \<Rightarrow> string \<times> event list" where
  "PdfParser_parse_traced L data =
     (case PdfParser_try L data of
        (Inr content, tr) \<Rightarrow> (content, tr)
      | (Inl e, tr) \<Rightarrow> (''Error processing PDF file'', tr))"

definition PdfParser_parse :: "libs \<Rightarrow> bytes \<Rightarrow> string" where
  "PdfParser_parse L data = fst (PdfParser_parse_traced L data)"

subsection \<open>TxtParser\<close>

definition TxtParser_parse :: "libs \<Rightarrow> bytes \<Rightarrow> string" where
  "TxtParser_parse L data =
     (case read_text L data of
        Some t \<Rightarrow> t
      | None \<Rightarrow> ''Error reading text file'')"

subsection \<open>ParserFactory\<close>

datatype parser = TxtParser | PdfParser

definition register_parser ::
  "(string \<rightharpoonup> parser) \<Rightarrow> string \<Rightarrow> parser \<Rightarrow> (string \<rightharpoonup> parser)" where
  "register_parser ps extension p = ps(extension \<mapsto> p)"

text \<open>The class attribute \<open>_parsers\<close> after the two registrations of lines 85-86.\<close>

definition parsers :: "string \<rightharpoonup> parser" where
  "parsers =
     register_parser (register_parser Map.empty ''txt'' TxtParser) ''pdf'' PdfParser"

definition get_parser :: "string \<Rightarrow> error + parser" where
  "get_parser extension =
     (case parsers extension of
        None \<Rightarrow> Inl ValueError
      | Some p \<Rightarrow> Inr p)"

definition parser_parse :: "parser \<Rightarrow> libs \<Rightarrow> bytes \<Rightarrow> string" where
  "parser_parse p L data =
     (case p of
        TxtParser \<Rightarrow> TxtParser_parse L data
      | PdfParser \<Rightarrow> PdfParser_parse L data)"

subsection \<open>FileParser\<close>

text \<open>\<open>filepath.split('.')[-1]\<close>\<close>

definition extension_of :: "string \<Rightarrow> string" where
  "extension_of filepath = last (str_split CHR ''.'' filepath)"

text \<open>\<open>FileParser._get_parser\<close>, lines 95-99, run by the constructor.\<close>

definition FileParser_get_parser :: "string \<Rightarrow> error + parser" where
  "FileParser_get_parser filepath =
     (let extension = extension_of filepath
      in if extension \<notin> dom parsers then Inl ValueError
         else get_parser extension)"

text \<open>
  \<open>FileParser(filepath).parse()\<close>: the constructor, then lines 101-104. The file system
  is a map from paths to the bytes of the regular files; \<open>os.path.exists\<close> asks whether
  the path is in its domain.
\<close>

type_synonym fs = "string \<rightharpoonup> bytes"

definition FileParser_parse :: "libs \<Rightarrow> fs \<Rightarrow> string \<Rightarrow> error + string" where
  "FileParser_parse L files filepath =
     (case FileParser_get_parser filepath of
        Inl e \<Rightarrow> Inl e
      | Inr p \<Rightarrow>
          (case files filepath of
             None \<Rightarrow> Inl FileNotFoundError
           | Some data \<Rightarrow> Inr (parser_parse p L data)))"

section \<open>The database (db.py)\<close>

text \<open>The two mapped classes: a row of \<open>files\<close> and a row of \<open>file_chunks\<close>.\<close>

record File =
  file_id :: int
  file_name :: string
  file_content :: string

record FileChunk =
  chunk_id :: int
  file_id :: int
  chunk_text :: string
  embedding_vector :: "real list"

text \<open>
  The state of the database as one session sees it: the two tables, the next value of
  each primary-key sequence, and the \<open>FileChunk\<close> objects given to \<open>db.add\<close> that no
  \<open>db.commit\<close> has written yet (each without its \<open>chunk_id\<close>, which the insert assigns).
\<close>

record db =
  files_table :: "File list"
  file_chunks :: "FileChunk list"
  next_file_id :: int
  next_chunk_id :: int
  session_new :: "(int \<times> string \<times> real list) list"

text \<open>The inserts of a commit: the pending objects in the order added, ids from \<open>n\<close> on.\<close>

fun flush :: "int \<Rightarrow> (int \<times> string \<times> real list) list \<Rightarrow> FileChunk list" where
  "flush n [] = []"
| "flush n ((fid, txt, v) # rest) =
     \<lparr>chunk_id = n, file_id = fid, chunk_text = txt, embedding_vector = v\<rparr>
       # flush (n + 1) rest"

definition commit :: "db \<Rightarrow> db" where
  "commit d =
     d\<lparr>file_chunks := file_chunks d @ flush (next_chunk_id d) (session_new d),
       next_chunk_id := next_chunk_id d + int (length (session_new d)),
       session_new := []\<rparr>"

section \<open>Ingestion (background\_tasks.py, TextProcessor.chunk\_and\_embed, lines 29-44)\<close>

text \<open>
  The loop of lines 29-42. \<open>create_embedding\<close> is the call \<open>client.embeddings.create\<close> followed by
  \<open>response.data[0].embedding\<close>, \<open>None\<close> when it raises; nothing catches the exception,
  so it leaves the loop and the method, with the session as it is at that point.
\<close>

fun embed_chunks ::
  "(string \<Rightarrow> real list option) \<Rightarrow> int \<Rightarrow> string list \<Rightarrow> db \<Rightarrow> error option \<times> db" where
  "embed_chunks create_embedding fid [] d = (None, d)"
| "embed_chunks create_embedding fid (chunk # rest) d =
     (case create_embedding chunk of
        None \<Rightarrow> (Some LibraryError, d)
      | Some embeddings \<Rightarrow>
          embed_chunks create_embedding fid rest
            (d\<lparr>session_new := session_new d @ [(fid, chunk, embeddings)]\<rparr>))"

text \<open>
  \<open>TextProcessor(db, file_id, chunk_size).chunk_and_embed(text)\<close>; the first component
  is the exception that leaves the method, \<open>None\<close> when it returns.
\<close>

definition chunk_and_embed ::
  "(string \<Rightarrow> string list) \<Rightarrow> (string \<Rightarrow> real list option) \<Rightarrow> int \<Rightarrow> int \<Rightarrow> db \<Rightarrow> string
     \<Rightarrow> error option \<times> db" where
  "chunk_and_embed sent_tokenize create_embedding chunk_size fid d text =
     (case chunker sent_tokenize chunk_size text of
        Inl e \<Rightarrow> (Some e, d)
      | Inr chunks \<Rightarrow>
          (case embed_chunks create_embedding fid chunks d of
             (Some e, d') \<Rightarrow> (Some e, d')
           | (None, d') \<Rightarrow> (None, commit d')))"

section \<open>Retrieval (app.py, find\_similar\_chunks)\<close>

text \<open>
  pgvector's \<open>l2_distance\<close>. The column is \<open>Vector(1536)\<close> and the question is embedded by
  the same model, so the two vectors have the same length.
\<close>

definition l2_distance :: "real list \<Rightarrow> real list \<Rightarrow> real" where
  "l2_distance u v = sqrt (\<Sum>(a, b) \<leftarrow> zip u v. (a - b)\<^sup>2)"

text \<open>
  Lines 84-86: \<open>select(FileChunk).where(file_id == file_id).order_by(l2_distance).limit(10)\<close>.
  The query orders by the distance and by nothing else, and SQL leaves the order of rows
  with equal sort keys to the engine. \<open>rows\<close> is the table in the order the engine reads
  it for this query; the sort is stable, so rows at equal distance come out in that order.
\<close>

definition similar_chunks :: "FileChunk list \<Rightarrow> int \<Rightarrow> real list \<Rightarrow> FileChunk list" where
  "similar_chunks rows fid question_embedding =
     take 10
       (sort_key (\<lambda>c. l2_distance (embedding_vector c) question_embedding)
          (filter (\<lambda>c. file_id c = fid) rows))"

text \<open>Lines 89-92.\<close>

definition formatted_response :: "FileChunk list \<Rightarrow> (int \<times> string) list" where
  "formatted_response chunks = map (\<lambda>chunk. (chunk_id chunk, chunk_text chunk)) chunks"

text \<open>
  The endpoint, lines 75-97. \<open>scan\<close> is the order in which the engine reads the table, a
  permutation of its rows that the query does not fix.
\<close>

definition find_similar_chunks ::
  "(string \<Rightarrow> real list option) \<Rightarrow> (FileChunk list \<Rightarrow> FileChunk list) \<Rightarrow> db \<Rightarrow> int \<Rightarrow> string
     \<Rightarrow> error + (int \<times> string) list" where
  "find_similar_chunks create_embedding scan d fid question =
     (case create_embedding question of
        None \<Rightarrow> Inl (HTTPException 500)
      | Some question_embedding \<Rightarrow>
          Inr (formatted_response
                 (similar_chunks (scan (file_chunks d)) fid question_embedding)))"

section \<open>Upload (app.py, upload\_file)\<close>

definition allowed_extensions :: "string list" where
  "allowed_extensions = [''txt'', ''pdf'']"

text \<open>\<open>os.path.join(a, b)\<close> of posixpath: an absolute \<open>b\<close> discards \<open>a\<close>.\<close>

definition os_path_join :: "string \<Rightarrow> string \<Rightarrow> string" where
  "os_path_join a b =
     (if take 1 b = ''/'' then b
      else if a = [] \<or> last a = CHR ''/'' then a @ b
      else a @ ''/'' @ b)"

text \<open>
  What the endpoint reads and writes: the files on disk, the database, and the
  background tasks scheduled so far (the \<open>file_id\<close> and the text given to
  \<open>chunk_and_embed\<close>).
\<close>

record world =
  disk :: fs
  database :: db
  background_tasks :: "(int \<times> string) list"

text \<open>
  Lines 27-69. The response is the pair of \<open>info\<close> and \<open>filename\<close>. Every exception
  inside the \<open>try\<close> becomes status 500.
\<close>

definition upload_file ::
  "libs \<Rightarrow> world \<Rightarrow> string \<Rightarrow> bytes \<Rightarrow> (error + string \<times> string) \<times> world" where
  "upload_file L w filename uploaded =
     (let file_extension = last (str_split CHR ''.'' filename)
      in if file_extension \<notin> set allowed_extensions
         then (Inl (HTTPException 400), w)
         else
           (let file_location = os_path_join ''sources'' filename
            in case FileParser_parse L (disk w) file_location of
                 Inl e \<Rightarrow> (Inl (HTTPException 500), w)
               | Inr file_text_content \<Rightarrow>
                   (let d = database w;
                        new_file = \<lparr>File.file_id = next_file_id d, file_name = filename,
                                    file_content = file_text_content\<rparr>
                    in (Inr (''File saved'', filename),
                        w\<lparr>disk := (disk w)(file_location \<mapsto> uploaded),
                          database := d\<lparr>files_table := files_table d @ [new_file],
                                        next_file_id := next_file_id d + 1\<rparr>,
                          background_tasks :=
                            background_tasks w @ [(next_file_id d, file_text_content)]\<rparr>))))"

section \<open>Per-page extraction, as the specification words it\<close>

text \<open>
  Written from the specification's words, to be compared with \<open>pages_loop\<close>. The text
  of page \<open>i\<close> is its text layer \<open>t\<close> when that is not empty; when it is empty it is the
  text the OCR of the page returns, or the placeholder of a failed OCR. The calls made
  for the page are the direct extraction, then the OCR fallback when \<open>t\<close> is empty.
\<close>

definition page_text :: "libs \<Rightarrow> bytes \<Rightarrow> nat \<times> string \<Rightarrow> string" where
  "page_text L data p =
     (if snd p \<noteq> [] then snd p
      else (case ocr_image L data (fst p) of
              Some recognised \<Rightarrow> recognised
            | None \<Rightarrow> ''Error in OCR processing''))"

definition page_events :: "nat \<times> string \<Rightarrow> event list" where
  "page_events p = (if snd p = [] then [ExtractText (fst p), OcrPage (fst p)]
                    else [ExtractText (fst p)])"

section \<open>The ranking, as the specification words it\<close>

text \<open>
  Written from the specification's words, to be compared with \<open>l2_distance\<close>: the
  Euclidean distance of two vectors, the square root of the sum over the coordinates of
  the squared differences.
\<close>

definition euclidean_distance :: "real list \<Rightarrow> real list \<Rightarrow> real" where
  "euclidean_distance u v = sqrt (\<Sum>i < min (length u) (length v). (u ! i - v ! i)\<^sup>2)"

section \<open>Properties of the chunker\<close>

lemma py_slice_take_drop:
  "0 < n \<Longrightarrow> py_slice i (int i + n) xs = take (nat n) (drop i xs)"
  by (simp add: py_slice_def Let_def drop_take nat_add_distrib)

lemma range_from_groups:
  "0 < n \<Longrightarrow>
   map (\<lambda>j. take n (drop j xs)) (range_from i (length xs) n) = groups_of n (drop i xs)"
proof (induction i "length xs" n rule: range_from.induct)
  case (1 i step)
  show ?case
  proof (cases "i < length xs")
    case True
    with 1 show ?thesis
      by (subst range_from.simps, subst groups_of.simps) (simp add: add.commute)
  next
    case False
    with 1 show ?thesis
      by (subst range_from.simps, subst groups_of.simps) simp
  qed
qed

lemma concat_groups_of: "0 < n \<Longrightarrow> concat (groups_of n xs) = xs"
proof (induction n xs rule: groups_of.induct)
  case (1 n xs)
  then show ?case
    by (subst groups_of.simps) simp
qed


lemma join_single_space: "join g = single_space_join g"
  by (induction g rule: join.induct) (simp_all add: single_space_join_def)

lemma chunks_of_ref:
  assumes "0 < n"
  shows "chunks_of n sentences = Inr (chunk_ref (nat n) sentences)"
proof -
  have "map (\<lambda>i. join (py_slice i (int i + n) sentences)) (range_from 0 (length sentences) (nat n))
        = map join (map (\<lambda>j. take (nat n) (drop j sentences)) (range_from 0 (length sentences) (nat n)))"
    using assms by (simp add: py_slice_take_drop)
  also have "\<dots> = map join (groups_of (nat n) sentences)"
    using assms range_from_groups [of "nat n" sentences 0] by simp
  also have "\<dots> = map single_space_join (groups_of (nat n) sentences)"
    by (simp add: join_single_space)
  finally show ?thesis
    using assms by (simp add: chunks_of_def py_range_def chunk_ref_def)
qed

lemma ceil_div_step:
  fixes l n :: nat
  assumes "0 < n" "0 < l"
  shows "Suc ((l - n + n - 1) div n) = (l + n - 1) div n"
proof -
  have r: "l + n - 1 = (l - 1) + n" using assms by arith
  have rhs: "(l + n - 1) div n = Suc ((l - 1) div n)"
    unfolding r using assms(1) by simp
  show ?thesis
  proof (cases "n \<le> l")
    case True
    then have "l - n + n - 1 = l - 1" by arith
    then show ?thesis using rhs by simp
  next
    case False
    then have "l - n + n - 1 = n - 1" by arith
    moreover have "(n - 1) div n = 0" using assms(1) by simp
    moreover have "(l - 1) div n = 0" using False assms by simp
    ultimately show ?thesis using rhs by simp
  qed
qed

lemma length_groups_of: "0 < n \<Longrightarrow> length (groups_of n xs) = (length xs + n - 1) div n"
proof (induction n xs rule: groups_of.induct)
  case (1 n xs)
  show ?case
  proof (cases "xs = []")
    case True
    with 1(2) show ?thesis by (subst groups_of.simps) simp
  next
    case False
    then have pos: "0 < length xs" by simp
    have "length (groups_of n xs) = Suc (length (groups_of n (drop n xs)))"
      using 1(2) False by (subst groups_of.simps) simp
    also have "\<dots> = Suc ((length xs - n + n - 1) div n)"
      using 1 False by simp
    also have "\<dots> = (length xs + n - 1) div n"
      using ceil_div_step [OF 1(2) pos] .
    finally show ?thesis .
  qed
qed


lemma groups_of_Nil_iff: "groups_of n xs = [] \<longleftrightarrow> n = 0 \<or> xs = []"
  by (subst groups_of.simps) simp

lemma groups_of_butlast:
  "0 < n \<Longrightarrow> g \<in> set (butlast (groups_of n xs)) \<Longrightarrow> length g = n"
proof (induction n xs rule: groups_of.induct)
  case (1 n xs)
  show ?case
  proof (cases "xs = []")
    case True
    with 1(3) show ?thesis by (simp add: groups_of.simps [of n "[]"])
  next
    case False
    have unf: "groups_of n xs = take n xs # groups_of n (drop n xs)"
      using 1(2) False by (subst groups_of.simps) simp
    show ?thesis
    proof (cases "drop n xs = []")
      case True
      then have "groups_of n (drop n xs) = []" by (simp add: groups_of_Nil_iff)
      with 1(3) unf show ?thesis by simp
    next
      case nonempty: False
      then have rest: "groups_of n (drop n xs) \<noteq> []"
        using 1(2) by (simp add: groups_of_Nil_iff)
      from nonempty have len: "length (take n xs) = n" by simp
      from 1(3) unf rest have "g = take n xs \<or> g \<in> set (butlast (groups_of n (drop n xs)))"
        by simp
      then show ?thesis
        using len 1(1) [OF _ 1(2)] 1(2) False by auto
    qed
  qed
qed

lemma groups_of_last:
  "0 < n \<Longrightarrow> xs \<noteq> [] \<Longrightarrow>
   length (last (groups_of n xs)) = (if length xs mod n = 0 then n else length xs mod n)"
proof (induction n xs rule: groups_of.induct)
  case (1 n xs)
  have unf: "groups_of n xs = take n xs # groups_of n (drop n xs)"
    using 1(2,3) by (subst groups_of.simps) simp
  show ?case
  proof (cases "drop n xs = []")
    case True
    then have e: "groups_of n (drop n xs) = []" by (simp add: groups_of_Nil_iff)
    from True have le: "length xs \<le> n" by simp
    have pos: "0 < length xs" using 1(3) by simp
    show ?thesis
    proof (cases "length xs = n")
      case True
      then show ?thesis using unf e by simp
    next
      case False
      with le have "length xs < n" by simp
      then show ?thesis using unf e pos by simp
    qed
  next
    case False
    then have rest: "groups_of n (drop n xs) \<noteq> []"
      using 1(2) by (simp add: groups_of_Nil_iff)
    from False have ge: "n \<le> length xs" by simp
    have "length (last (groups_of n xs)) = length (last (groups_of n (drop n xs)))"
      using unf rest by simp
    also have "\<dots> = (if length (drop n xs) mod n = 0 then n else length (drop n xs) mod n)"
      using 1(1) [OF _ 1(2) False] 1(2,3) by simp
    also have "length (drop n xs) mod n = length xs mod n"
      using ge by (simp add: le_mod_geq)
    finally show ?thesis .
  qed
qed


lemma groups_of_nonempty: "g \<in> set (groups_of n xs) \<Longrightarrow> g \<noteq> []"
proof (induction n xs rule: groups_of.induct)
  case (1 n xs)
  show ?case
  proof (cases "n = 0 \<or> xs = []")
    case True
    then have "groups_of n xs = []" by (simp add: groups_of_Nil_iff)
    with 1(2) show ?thesis by simp
  next
    case False
    then have "groups_of n xs = take n xs # groups_of n (drop n xs)"
      by (subst groups_of.simps) simp
    with 1 False show ?thesis by auto
  qed
qed

lemma str_split_nonempty: "str_split c s \<noteq> []"
  by (induction s) (auto split: list.splits)

lemma str_split_append:
  "str_split c (a @ c # b) = str_split c a @ str_split c b"
proof (induction a)
  case Nil
  show ?case
    by (cases "str_split c b") (simp_all add: str_split_nonempty)
next
  case (Cons x a)
  show ?case
  proof (cases "x = c")
    case True
    with Cons show ?thesis by simp
  next
    case False
    obtain w ws where ws: "str_split c a = w # ws"
      by (cases "str_split c a") (simp_all add: str_split_nonempty)
    with Cons False show ?thesis by simp
  qed
qed

lemma str_split_no_sep: "c \<notin> set s \<Longrightarrow> str_split c s = [s]"
  by (induction s) auto

lemma unjoin_tail:
  "unjoin (s @ concat (map (\<lambda>t. CHR '' '' # t) ss)) = unjoin s @ concat (map unjoin ss)"
proof (induction ss arbitrary: s)
  case Nil
  show ?case by simp
next
  case (Cons t ss)
  have "unjoin (s @ concat (map (\<lambda>t. CHR '' '' # t) (t # ss)))
        = unjoin (s @ CHR '' '' # (t @ concat (map (\<lambda>t. CHR '' '' # t) ss)))"
    by simp
  also have "\<dots> = unjoin s @ unjoin (t @ concat (map (\<lambda>t. CHR '' '' # t) ss))"
    unfolding unjoin_def by (rule str_split_append)
  also have "\<dots> = unjoin s @ concat (map unjoin (t # ss))"
    by (simp add: Cons)
  finally show ?case .
qed

lemma unjoin_single_space_join:
  "g \<noteq> [] \<Longrightarrow> unjoin (single_space_join g) = concat (map unjoin g)"
  by (cases g) (simp_all add: single_space_join_def unjoin_tail)

lemma unjoin_groups:
  "\<forall>g \<in> set gs. g \<noteq> [] \<Longrightarrow>
   concat (map unjoin (map single_space_join gs)) = concat (map unjoin (concat gs))"
  by (induction gs) (simp_all add: unjoin_single_space_join)

lemma unjoin_words: "\<forall>s \<in> set xs. CHR '' '' \<notin> set s \<Longrightarrow> concat (map unjoin xs) = xs"
  by (induction xs) (simp_all add: unjoin_def str_split_no_sep)

lemma retokenize_groups:
  "\<forall>g \<in> set gs. tok (single_space_join g) = g \<Longrightarrow>
   concat (map tok (map single_space_join gs)) = concat gs"
  by (induction gs) simp_all

lemma groups_of_nth:
  "0 < n \<Longrightarrow> i < length (groups_of n xs) \<Longrightarrow> groups_of n xs ! i = take n (drop (i * n) xs)"
proof (induction n xs arbitrary: i rule: groups_of.induct)
  case (1 n xs)
  show ?case
  proof (cases "xs = []")
    case True
    then have "groups_of n xs = []" by (simp add: groups_of_Nil_iff)
    with 1(3) show ?thesis by simp
  next
    case False
    have unf: "groups_of n xs = take n xs # groups_of n (drop n xs)"
      using 1(2) False by (subst groups_of.simps) simp
    show ?thesis
    proof (cases i)
      case 0
      with unf show ?thesis by simp
    next
      case (Suc j)
      with 1(3) unf have j: "j < length (groups_of n (drop n xs))" by simp
      have "groups_of n xs ! i = groups_of n (drop n xs) ! j"
        using unf Suc by simp
      also have "\<dots> = take n (drop (j * n) (drop n xs))"
        using 1(1) [OF _ 1(2) j] 1(2) False by simp
      also have "\<dots> = take n (drop (i * n) xs)"
        using Suc by (simp add: add.commute)
      finally show ?thesis .
    qed
  qed
qed

text \<open>
  C1. For every text and every positive chunk size \<open>N\<close> the chunker returns a list of
  chunks, and that list is the reference one: the sentence sequence cut into consecutive
  groups of exactly \<open>N\<close> sentences (every group but the last has \<open>N\<close> sentences, the last
  has the remainder, between 1 and \<open>N\<close>), each group joined with single spaces; chunk
  \<open>i\<close> is the single-space join of the sentences from position \<open>i * N\<close> on, at most \<open>N\<close>
  of them. Reversing the join on the returned chunks gives the sentence sequence back:
  cutting the chunks at their spaces gives the same pieces, in the same order, as cutting
  the sentences at theirs, which is the sentence sequence itself when no sentence contains
  a space; and tokenizing the chunks again gives the sentence sequence whenever the
  tokenizer recovers each group from its join. There are \<open>ceil(S / N)\<close> chunks for \<open>S\<close>
  sentences, and the empty text gives no chunk when the tokenizer finds no sentence
  in it.
\<close>

theorem chunker_refines_reference:
  assumes "0 < N"
  shows "\<exists>chunks.
      chunker sent_tokenize N T = Inr chunks
    \<and> chunks = map single_space_join (groups_of (nat N) (sent_tokenize T))
    \<and> concat (groups_of (nat N) (sent_tokenize T)) = sent_tokenize T
    \<and> (\<forall>g \<in> set (butlast (groups_of (nat N) (sent_tokenize T))). length g = nat N)
    \<and> (sent_tokenize T \<noteq> [] \<longrightarrow>
          length (last (groups_of (nat N) (sent_tokenize T))) =
            (if length (sent_tokenize T) mod nat N = 0 then nat N
             else length (sent_tokenize T) mod nat N))
    \<and> (\<forall>i < length chunks.
          chunks ! i = single_space_join (take (nat N) (drop (i * nat N) (sent_tokenize T))))
    \<and> concat (map unjoin chunks) = concat (map unjoin (sent_tokenize T))
    \<and> ((\<forall>s \<in> set (sent_tokenize T). CHR '' '' \<notin> set s) \<longrightarrow>
          concat (map unjoin chunks) = sent_tokenize T)
    \<and> ((\<forall>g \<in> set (groups_of (nat N) (sent_tokenize T)).
            sent_tokenize (single_space_join g) = g) \<longrightarrow>
          concat (map sent_tokenize chunks) = sent_tokenize T)
    \<and> length chunks = (length (sent_tokenize T) + nat N - 1) div nat N
    \<and> (sent_tokenize [] = [] \<longrightarrow> chunker sent_tokenize N [] = Inr [])"
proof -
  let ?S = "sent_tokenize T"
  let ?G = "groups_of (nat N) ?S"
  let ?C = "map single_space_join ?G"
  from assms have n: "0 < nat N" by simp
  have a: "chunker sent_tokenize N T = Inr ?C"
    by (simp add: chunker_def chunks_of_ref [OF assms] chunk_ref_def)
  have b: "concat ?G = ?S"
    by (rule concat_groups_of [OF n])
  have c: "\<forall>g \<in> set (butlast ?G). length g = nat N"
    using groups_of_butlast [OF n] by blast
  have d: "?S \<noteq> [] \<longrightarrow> length (last ?G) =
      (if length ?S mod nat N = 0 then nat N else length ?S mod nat N)"
    using groups_of_last [OF n] by blast
  have e: "\<forall>i < length ?C. ?C ! i = single_space_join (take (nat N) (drop (i * nat N) ?S))"
    by (simp add: groups_of_nth [OF n])
  have ne: "\<forall>g \<in> set ?G. g \<noteq> []"
    using groups_of_nonempty by blast
  have f: "concat (map unjoin ?C) = concat (map unjoin ?S)"
    using unjoin_groups [OF ne] b by simp
  have g: "(\<forall>s \<in> set ?S. CHR '' '' \<notin> set s) \<longrightarrow> concat (map unjoin ?C) = ?S"
    using f unjoin_words [of ?S] by simp
  have h: "(\<forall>g \<in> set ?G. sent_tokenize (single_space_join g) = g) \<longrightarrow>
      concat (map sent_tokenize ?C) = ?S"
    using retokenize_groups [of ?G sent_tokenize] b by simp
  have i: "length ?C = (length ?S + nat N - 1) div nat N"
    by (simp add: length_groups_of [OF n])
  have j: "sent_tokenize [] = [] \<longrightarrow> chunker sent_tokenize N [] = Inr []"
    by (simp add: chunker_def chunks_of_ref [OF assms] chunk_ref_def groups_of_Nil_iff)
  from a b c d e f g h i j show ?thesis by blast
qed

theorem chunker_refines_reference_witness:
  "(0::int) < 2
   \<and> chunker
        (\<lambda>t. if t = ''Cats are mammals. Dogs bark loudly. Birds can fly.''
              then [''Cats are mammals.'', ''Dogs bark loudly.'', ''Birds can fly.'']
              else if t = ''Cats are mammals. Dogs bark loudly.''
              then [''Cats are mammals.'', ''Dogs bark loudly.'']
              else if t = ''Birds can fly.'' then [''Birds can fly.''] else [])
        2 ''Cats are mammals. Dogs bark loudly. Birds can fly.''
      = Inr [''Cats are mammals. Dogs bark loudly.'', ''Birds can fly.'']
   \<and> chunker
        (\<lambda>t. if t = ''Cats are mammals. Dogs bark loudly. Birds can fly.''
              then [''Cats are mammals.'', ''Dogs bark loudly.'', ''Birds can fly.'']
              else if t = ''Cats are mammals. Dogs bark loudly.''
              then [''Cats are mammals.'', ''Dogs bark loudly.'']
              else if t = ''Birds can fly.'' then [''Birds can fly.''] else [])
        2 [] = Inr []
   \<and> chunker (\<lambda>t. if t = ''Go. Stop. Wait.'' then [''Go.'', ''Stop.'', ''Wait.''] else [])
        2 ''Go. Stop. Wait.'' = Inr [''Go. Stop.'', ''Wait.'']
   \<and> concat (map unjoin [''Go. Stop.'', ''Wait.'']) = [''Go.'', ''Stop.'', ''Wait.'']"
proof -
  let ?T = "''Cats are mammals. Dogs bark loudly. Birds can fly.''"
  let ?tok = "\<lambda>t. if t = ''Cats are mammals. Dogs bark loudly. Birds can fly.''
              then [''Cats are mammals.'', ''Dogs bark loudly.'', ''Birds can fly.'']
              else if t = ''Cats are mammals. Dogs bark loudly.''
              then [''Cats are mammals.'', ''Dogs bark loudly.'']
              else if t = ''Birds can fly.'' then [''Birds can fly.''] else []"
  let ?U = "''Go. Stop. Wait.''"
  let ?tok2 = "\<lambda>t. if t = ''Go. Stop. Wait.'' then [''Go.'', ''Stop.'', ''Wait.''] else []"
  have pos: "(0::int) < 2" by simp
  have tokT: "?tok ?T = [''Cats are mammals.'', ''Dogs bark loudly.'', ''Birds can fly.'']"
    by simp
  have grp: "groups_of (nat 2) (?tok ?T)
      = [[''Cats are mammals.'', ''Dogs bark loudly.''], [''Birds can fly.'']]"
    unfolding tokT by (simp add: groups_of.simps)
  have retok: "\<forall>g \<in> set (groups_of (nat 2) (?tok ?T)). ?tok (single_space_join g) = g"
    unfolding grp by (simp add: single_space_join_def)
  have empty: "?tok [] = []" by simp
  obtain chunks where
    c1: "chunker ?tok 2 ?T = Inr chunks" and
    c2: "chunks = map single_space_join (groups_of (nat 2) (?tok ?T))" and
    c3: "concat (map ?tok chunks) = ?tok ?T" and
    c4: "chunker ?tok 2 [] = Inr []"
    using chunker_refines_reference [OF pos, of ?tok ?T] retok empty by blast
  have a: "chunker ?tok 2 ?T = Inr [''Cats are mammals. Dogs bark loudly.'', ''Birds can fly.'']"
    using c1 c2 unfolding grp by (simp add: single_space_join_def)
  have tokU: "?tok2 ?U = [''Go.'', ''Stop.'', ''Wait.'']" by simp
  have nosp: "\<forall>s \<in> set (?tok2 ?U). CHR '' '' \<notin> set s"
    unfolding tokU by simp
  have grpU: "groups_of (nat 2) (?tok2 ?U) = [[''Go.'', ''Stop.''], [''Wait.'']]"
    unfolding tokU by (simp add: groups_of.simps)
  obtain chunks2 where
    d1: "chunker ?tok2 2 ?U = Inr chunks2" and
    d2: "chunks2 = map single_space_join (groups_of (nat 2) (?tok2 ?U))" and
    d3: "concat (map unjoin chunks2) = ?tok2 ?U"
    using chunker_refines_reference [OF pos, of ?tok2 ?U] nosp by blast
  have d2': "chunks2 = [''Go. Stop.'', ''Wait.'']"
    using d2 unfolding grpU by (simp add: single_space_join_def)
  have b: "chunker ?tok2 2 ?U = Inr [''Go. Stop.'', ''Wait.'']"
    using d1 d2' by simp
  have c: "concat (map unjoin [''Go. Stop.'', ''Wait.'']) = [''Go.'', ''Stop.'', ''Wait.'']"
    using d3 d2' tokU by simp
  show ?thesis
    using pos a c4 b c by simp
qed

section \<open>Chunk sizes that are not positive\<close>

text \<open>
  C9 (as stated). The claim asks for a failure at every chunk size \<open>N \<le> 0\<close>. At
  \<open>N = -1\<close> the range of line 27 is empty and the chunker returns the empty list of
  chunks without failing.
\<close>

theorem chunks_of_negative_counterexample:
  "chunks_of (- 1) [''Cats are mammals.'', ''Dogs bark loudly.''] = Inr []"
  by (simp add: chunks_of_def py_range_def)

text \<open>
  C9 (amended). At chunk size 0 the chunker fails with the ValueError that \<open>range\<close>
  raises for a zero step, and produces no chunk sequence; at a negative chunk size it does
  not fail and returns the empty chunk sequence.
\<close>

theorem chunker_nonpositive:
  "chunker sent_tokenize 0 T = Inl ValueError
   \<and> (N < 0 \<longrightarrow> chunker sent_tokenize N T = Inr [])"
  by (simp add: chunker_def chunks_of_def py_range_def)

theorem chunker_nonpositive_witness:
  "chunker (\<lambda>t. [''Cats are mammals.'', ''Dogs bark loudly.'']) 0 ''Cats are mammals. Dogs bark loudly.''
     = Inl ValueError
   \<and> (- 1 :: int) < 0
   \<and> chunker (\<lambda>t. [''Cats are mammals.'', ''Dogs bark loudly.'']) (- 1)
        ''Cats are mammals. Dogs bark loudly.'' = Inr []"
  using chunker_nonpositive [of "\<lambda>t. [''Cats are mammals.'', ''Dogs bark loudly.'']"
      "''Cats are mammals. Dogs bark loudly.''" "- 1"]
  by simp

section \<open>Properties of FileParser\<close>

lemma dom_parsers: "dom parsers = {''txt'', ''pdf''}"
  by (auto simp: parsers_def register_parser_def)

lemma parsers_txt: "parsers ''txt'' = Some TxtParser"
  by (simp add: parsers_def register_parser_def)

lemma parsers_pdf: "parsers ''pdf'' = Some PdfParser"
  by (simp add: parsers_def register_parser_def)

lemma FileParser_get_parser_cases:
  "FileParser_get_parser filepath =
     (case parsers (extension_of filepath) of None \<Rightarrow> Inl ValueError | Some p \<Rightarrow> Inr p)"
  by (auto simp: FileParser_get_parser_def get_parser_def Let_def split: option.splits)

lemma last_str_split_append:
  "last (str_split c (a @ c # e)) = last (str_split c e)"
  by (simp add: str_split_append str_split_nonempty)

lemma extension_of_suffix:
  "CHR ''.'' \<notin> set e \<Longrightarrow> extension_of (a @ CHR ''.'' # e) = e"
  by (simp add: extension_of_def last_str_split_append str_split_no_sep)

lemma extension_of_no_dot: "CHR ''.'' \<notin> set p \<Longrightarrow> extension_of p = p"
  by (simp add: extension_of_def str_split_no_sep)

lemma FileParser_parse_unregistered:
  "extension_of filepath \<notin> {''txt'', ''pdf''} \<Longrightarrow>
   FileParser_parse L files filepath = Inl ValueError"
  using dom_parsers
  by (auto simp: FileParser_parse_def FileParser_get_parser_cases split: option.splits)

lemma FileParser_parse_missing:
  "extension_of filepath \<in> {''txt'', ''pdf''} \<Longrightarrow> files filepath = None \<Longrightarrow>
   FileParser_parse L files filepath = Inl FileNotFoundError"
  by (auto simp: FileParser_parse_def FileParser_get_parser_cases parsers_txt parsers_pdf)

lemma FileParser_parse_txt:
  "extension_of filepath = ''txt'' \<Longrightarrow> files filepath = Some data \<Longrightarrow>
   FileParser_parse L files filepath = Inr (TxtParser_parse L data)"
  by (simp add: FileParser_parse_def FileParser_get_parser_cases parsers_txt parser_parse_def)

lemma FileParser_parse_pdf:
  "extension_of filepath = ''pdf'' \<Longrightarrow> files filepath = Some data \<Longrightarrow>
   FileParser_parse L files filepath = Inr (PdfParser_parse L data)"
  by (simp add: FileParser_parse_def FileParser_get_parser_cases parsers_pdf parser_parse_def)

text \<open>
  C5. The extension is the part of the path after its last dot (the whole path when it
  has no dot). \<open>parse\<close> fails in exactly two cases. When the extension is neither
  \<open>txt\<close> nor \<open>pdf\<close>, the two registered ones, it fails with ValueError (the
  unsupported-type error) whatever the file system holds and whatever the libraries do, so
  no file is looked at. When the extension is registered and the path does not exist it
  fails with FileNotFoundError. In every other case it returns what the registered parser
  returns on the file, for every behaviour of the libraries on the content: a text file
  that cannot be read gives the string "Error reading text file", and a PDF gives the
  string that \<open>PdfParser.parse\<close> returns.
\<close>

theorem FileParser_parse_failures:
  "(CHR ''.'' \<notin> set e \<longrightarrow> extension_of (a @ CHR ''.'' # e) = e)
   \<and> (CHR ''.'' \<notin> set filepath \<longrightarrow> extension_of filepath = filepath)
   \<and> (extension_of filepath \<notin> {''txt'', ''pdf''} \<longrightarrow>
        (\<forall>L' files'. FileParser_parse L' files' filepath = Inl ValueError))
   \<and> (extension_of filepath \<in> {''txt'', ''pdf''} \<and> files filepath = None \<longrightarrow>
        FileParser_parse L files filepath = Inl FileNotFoundError)
   \<and> (extension_of filepath = ''txt'' \<and> files filepath = Some data \<longrightarrow>
        FileParser_parse L files filepath =
          Inr (case read_text L data of Some t \<Rightarrow> t | None \<Rightarrow> ''Error reading text file''))
   \<and> (extension_of filepath = ''pdf'' \<and> files filepath = Some data \<longrightarrow>
        FileParser_parse L files filepath = Inr (PdfParser_parse L data))
   \<and> ((\<exists>err. FileParser_parse L files filepath = Inl err) \<longleftrightarrow>
        extension_of filepath \<notin> {''txt'', ''pdf''} \<or> files filepath = None)"
proof -
  have a: "CHR ''.'' \<notin> set e \<longrightarrow> extension_of (a @ CHR ''.'' # e) = e"
    by (simp add: extension_of_suffix)
  have b: "CHR ''.'' \<notin> set filepath \<longrightarrow> extension_of filepath = filepath"
    by (simp add: extension_of_no_dot)
  have c: "extension_of filepath \<notin> {''txt'', ''pdf''} \<longrightarrow>
        (\<forall>L' files'. FileParser_parse L' files' filepath = Inl ValueError)"
    using FileParser_parse_unregistered by blast
  have d: "extension_of filepath \<in> {''txt'', ''pdf''} \<and> files filepath = None \<longrightarrow>
        FileParser_parse L files filepath = Inl FileNotFoundError"
    using FileParser_parse_missing by blast
  have e: "extension_of filepath = ''txt'' \<and> files filepath = Some data \<longrightarrow>
        FileParser_parse L files filepath =
          Inr (case read_text L data of Some t \<Rightarrow> t | None \<Rightarrow> ''Error reading text file'')"
    using FileParser_parse_txt [of filepath files data L] by (simp add: TxtParser_parse_def)
  have f: "extension_of filepath = ''pdf'' \<and> files filepath = Some data \<longrightarrow>
        FileParser_parse L files filepath = Inr (PdfParser_parse L data)"
    using FileParser_parse_pdf by blast
  have g: "(\<exists>err. FileParser_parse L files filepath = Inl err) \<longleftrightarrow>
        extension_of filepath \<notin> {''txt'', ''pdf''} \<or> files filepath = None"
  proof (cases "extension_of filepath \<in> {''txt'', ''pdf''}")
    case False
    then show ?thesis using FileParser_parse_unregistered [of filepath L files] by simp
  next
    case True
    show ?thesis
    proof (cases "files filepath")
      case None
      then show ?thesis using FileParser_parse_missing [OF True, of files L] by simp
    next
      case (Some bytes)
      with True show ?thesis
        using FileParser_parse_txt [of filepath files bytes L]
          FileParser_parse_pdf [of filepath files bytes L]
        by auto
    qed
  qed
  from a b c d e f g show ?thesis by blast
qed

theorem FileParser_parse_failures_witness:
  "CHR ''.'' \<notin> set ''docx''
   \<and> extension_of ''notes.docx'' = ''docx''
   \<and> CHR ''.'' \<notin> set ''Makefile''
   \<and> extension_of ''Makefile'' = ''Makefile''
   \<and> extension_of ''notes.docx'' \<notin> {''txt'', ''pdf''}
   \<and> FileParser_parse \<lparr>read_text = Some, open_pdf = (\<lambda>data. None), ocr_image = (\<lambda>data n. None)\<rparr>
        [''notes.docx'' \<mapsto> ''some bytes''] ''notes.docx'' = Inl ValueError
   \<and> extension_of ''sources/notes.txt'' \<in> {''txt'', ''pdf''}
   \<and> (Map.empty :: fs) ''sources/notes.txt'' = None
   \<and> FileParser_parse \<lparr>read_text = Some, open_pdf = (\<lambda>data. None), ocr_image = (\<lambda>data n. None)\<rparr>
        Map.empty ''sources/notes.txt'' = Inl FileNotFoundError
   \<and> extension_of ''sources/notes.txt'' = ''txt''
   \<and> [''sources/notes.txt'' \<mapsto> ''some bytes''] ''sources/notes.txt'' = Some ''some bytes''
   \<and> FileParser_parse
        \<lparr>read_text = (\<lambda>data. None), open_pdf = (\<lambda>data. None), ocr_image = (\<lambda>data n. None)\<rparr>
        [''sources/notes.txt'' \<mapsto> ''some bytes''] ''sources/notes.txt''
        = Inr ''Error reading text file''
   \<and> extension_of ''a.b.pdf'' = ''pdf''
   \<and> [''a.b.pdf'' \<mapsto> ''not a pdf''] ''a.b.pdf'' = Some ''not a pdf''
   \<and> FileParser_parse \<lparr>read_text = Some, open_pdf = (\<lambda>data. None), ocr_image = (\<lambda>data n. None)\<rparr>
        [''a.b.pdf'' \<mapsto> ''not a pdf''] ''a.b.pdf'' = Inr ''Error processing PDF file''"
proof -
  let ?L = "\<lparr>read_text = Some, open_pdf = (\<lambda>data. None), ocr_image = (\<lambda>data n. None)\<rparr>"
  let ?L' = "\<lparr>read_text = (\<lambda>data. None), open_pdf = (\<lambda>data. None),
              ocr_image = (\<lambda>data n. None)\<rparr>"
  have n1: "CHR ''.'' \<notin> set ''docx''" by simp
  have n2: "CHR ''.'' \<notin> set ''Makefile''" by simp
  have e1: "extension_of ''notes.docx'' = ''docx''"
    using FileParser_parse_failures [where e = "''docx''" and a = "''notes''"] n1 by simp
  have e0: "extension_of ''Makefile'' = ''Makefile''"
    using FileParser_parse_failures [where filepath = "''Makefile''"] n2 by blast
  have u1: "extension_of ''notes.docx'' \<notin> {''txt'', ''pdf''}"
    unfolding e1 by simp
  have a: "FileParser_parse ?L [''notes.docx'' \<mapsto> ''some bytes''] ''notes.docx'' = Inl ValueError"
    using FileParser_parse_failures [where filepath = "''notes.docx''"] u1 by blast
  have n3: "CHR ''.'' \<notin> set ''txt''" by simp
  have e2: "extension_of ''sources/notes.txt'' = ''txt''"
    using FileParser_parse_failures [where e = "''txt''" and a = "''sources/notes''"] n3 by simp
  have r2: "extension_of ''sources/notes.txt'' \<in> {''txt'', ''pdf''}"
    unfolding e2 by simp
  have m2: "(Map.empty :: fs) ''sources/notes.txt'' = None" by simp
  have b: "FileParser_parse ?L Map.empty ''sources/notes.txt'' = Inl FileNotFoundError"
    using FileParser_parse_failures
      [where filepath = "''sources/notes.txt''" and files = Map.empty and L = ?L] r2 m2
    by blast
  have f3: "[''sources/notes.txt'' \<mapsto> ''some bytes''] ''sources/notes.txt'' = Some ''some bytes''"
    by simp
  have "FileParser_parse ?L' [''sources/notes.txt'' \<mapsto> ''some bytes''] ''sources/notes.txt''
      = Inr (case read_text ?L' ''some bytes'' of Some t \<Rightarrow> t | None \<Rightarrow> ''Error reading text file'')"
    using FileParser_parse_failures
      [where filepath = "''sources/notes.txt''" and L = ?L' and data = "''some bytes''"
         and files = "[''sources/notes.txt'' \<mapsto> ''some bytes'']"] e2 f3
    by blast
  then have c: "FileParser_parse ?L' [''sources/notes.txt'' \<mapsto> ''some bytes'']
      ''sources/notes.txt'' = Inr ''Error reading text file''"
    by simp
  have n4: "CHR ''.'' \<notin> set ''pdf''" by simp
  have e4: "extension_of ''a.b.pdf'' = ''pdf''"
    using FileParser_parse_failures [where e = "''pdf''" and a = "''a.b''"] n4 by simp
  have f4: "[''a.b.pdf'' \<mapsto> ''not a pdf''] ''a.b.pdf'' = Some ''not a pdf''" by simp
  have "FileParser_parse ?L [''a.b.pdf'' \<mapsto> ''not a pdf''] ''a.b.pdf''
      = Inr (PdfParser_parse ?L ''not a pdf'')"
    using FileParser_parse_failures
      [where filepath = "''a.b.pdf''" and L = ?L and data = "''not a pdf''"
         and files = "[''a.b.pdf'' \<mapsto> ''not a pdf'']"] e4 f4
    by blast
  then have d: "FileParser_parse ?L [''a.b.pdf'' \<mapsto> ''not a pdf''] ''a.b.pdf''
      = Inr ''Error processing PDF file''"
    by (simp add: PdfParser_parse_def PdfParser_parse_traced_def PdfParser_try_def)
  show ?thesis
    using n1 e1 n2 e0 u1 a r2 m2 b e2 f3 c e4 f4 d by blast
qed

section \<open>Properties of PdfParser\<close>

lemma pages_loop_raises:
  "None \<in> set ps \<Longrightarrow> \<exists>tr'. pages_loop L data ps k content tr = (Inl LibraryError, tr')"
  by (induction ps arbitrary: k content tr) (auto split: option.splits)

lemma pages_loop_readable:
  "pages_loop L data (map Some texts) k content tr =
     (Inr (content @ concat (map (page_text L data) (enumerate k texts))),
      tr @ concat (map page_events (enumerate k texts)))"
  by (induction texts arbitrary: k content tr)
     (simp_all add: page_text_def page_events_def ocr_page_def)

lemma PdfParser_try_Inl:
  "PdfParser_try L data = (Inl e, tr) \<Longrightarrow>
   PdfParser_parse_traced L data = (''Error processing PDF file'', tr)"
  by (simp add: PdfParser_parse_traced_def)

lemma PdfParser_parse_traced_readable:
  assumes "open_pdf L data = Some reader"
    and "\<not> (is_encrypted reader \<and> decrypt_raises reader)"
    and "pages reader = Some (map Some texts)"
  shows "PdfParser_parse_traced L data =
     (concat (map (page_text L data) (enumerate 0 texts)),
      (if is_encrypted reader then [Decrypt] else [])
        @ concat (map page_events (enumerate 0 texts)))"
  using assms
  by (auto simp: PdfParser_parse_traced_def PdfParser_try_def Let_def pages_loop_readable)

text \<open>
  C7. When the document is encrypted and decrypting it with the empty password raises,
  \<open>parse\<close> returns the one string "Unable to decrypt PDF" and the only library call made on
  the document is the decryption: no page is extracted. When an exception reaches the
  outer handler (the file cannot be opened or read as a PDF, its pages cannot be listed,
  the text extraction of a page raises), \<open>parse\<close> returns the one string
  "Error processing PDF file". In no case does \<open>parse\<close> raise: its result is a string.
\<close>

theorem PdfParser_parse_failure_strings:
  "(open_pdf L data = Some reader \<and> is_encrypted reader \<and> decrypt_raises reader \<longrightarrow>
      PdfParser_parse_traced L data = (''Unable to decrypt PDF'', [Decrypt])
      \<and> PdfParser_parse L data = ''Unable to decrypt PDF'')
   \<and> (open_pdf L data = None \<longrightarrow>
        PdfParser_parse_traced L data = (''Error processing PDF file'', []))
   \<and> (open_pdf L data = Some reader \<and> \<not> (is_encrypted reader \<and> decrypt_raises reader)
        \<and> pages reader = None \<longrightarrow> PdfParser_parse L data = ''Error processing PDF file'')
   \<and> (open_pdf L data = Some reader \<and> \<not> (is_encrypted reader \<and> decrypt_raises reader)
        \<and> pages reader = Some ps \<and> None \<in> set ps \<longrightarrow>
          PdfParser_parse L data = ''Error processing PDF file'')
   \<and> (\<forall>e tr. PdfParser_try L data = (Inl e, tr) \<longrightarrow>
          PdfParser_parse L data = ''Error processing PDF file'')"
proof -
  have a: "open_pdf L data = Some reader \<and> is_encrypted reader \<and> decrypt_raises reader \<longrightarrow>
      PdfParser_parse_traced L data = (''Unable to decrypt PDF'', [Decrypt])
      \<and> PdfParser_parse L data = ''Unable to decrypt PDF''"
    by (simp add: PdfParser_parse_def PdfParser_parse_traced_def PdfParser_try_def)
  have e: "\<forall>e tr. PdfParser_try L data = (Inl e, tr) \<longrightarrow>
      PdfParser_parse L data = ''Error processing PDF file''"
    by (simp add: PdfParser_parse_def PdfParser_try_Inl)
  have b: "open_pdf L data = None \<longrightarrow>
      PdfParser_parse_traced L data = (''Error processing PDF file'', [])"
    by (simp add: PdfParser_parse_traced_def PdfParser_try_def)
  have c: "open_pdf L data = Some reader \<and> \<not> (is_encrypted reader \<and> decrypt_raises reader)
        \<and> pages reader = None \<longrightarrow> PdfParser_parse L data = ''Error processing PDF file''"
    using e by (auto simp: PdfParser_try_def Let_def)
  have d: "open_pdf L data = Some reader \<and> \<not> (is_encrypted reader \<and> decrypt_raises reader)
        \<and> pages reader = Some ps \<and> None \<in> set ps \<longrightarrow>
          PdfParser_parse L data = ''Error processing PDF file''"
  proof
    assume h: "open_pdf L data = Some reader \<and> \<not> (is_encrypted reader \<and> decrypt_raises reader)
        \<and> pages reader = Some ps \<and> None \<in> set ps"
    then obtain tr' where
      "pages_loop L data ps 0 [] (if is_encrypted reader then [Decrypt] else [])
         = (Inl LibraryError, tr')"
      using pages_loop_raises by blast
    with h have "PdfParser_try L data = (Inl LibraryError, tr')"
      by (auto simp: PdfParser_try_def Let_def)
    with e show "PdfParser_parse L data = ''Error processing PDF file''" by blast
  qed
  from a b c d e show ?thesis by blast
qed

theorem PdfParser_parse_failure_strings_witness:
  "PdfParser_parse_traced
      \<lparr>read_text = Some,
       open_pdf = (\<lambda>data. Some \<lparr>is_encrypted = True, decrypt_raises = True,
                                pages = Some [Some ''secret text'']\<rparr>),
       ocr_image = (\<lambda>data n. None)\<rparr> ''locked''
     = (''Unable to decrypt PDF'', [Decrypt])
   \<and> PdfParser_parse_traced
        \<lparr>read_text = Some, open_pdf = (\<lambda>data. None), ocr_image = (\<lambda>data n. None)\<rparr>
        ''not a pdf''
      = (''Error processing PDF file'', [])
   \<and> PdfParser_parse
        \<lparr>read_text = Some,
         open_pdf = (\<lambda>data. Some \<lparr>is_encrypted = False, decrypt_raises = False, pages = None\<rparr>),
         ocr_image = (\<lambda>data n. None)\<rparr> ''truncated''
      = ''Error processing PDF file''
   \<and> PdfParser_parse
        \<lparr>read_text = Some,
         open_pdf = (\<lambda>data. Some \<lparr>is_encrypted = False, decrypt_raises = False,
                                  pages = Some [Some ''first page'', None]\<rparr>),
         ocr_image = (\<lambda>data n. None)\<rparr> ''damaged''
      = ''Error processing PDF file''"
proof -
  let ?r1 = "\<lparr>is_encrypted = True, decrypt_raises = True, pages = Some [Some ''secret text'']\<rparr>"
  let ?L1 = "\<lparr>read_text = Some, open_pdf = (\<lambda>data. Some ?r1), ocr_image = (\<lambda>data n. None)\<rparr>"
  let ?L2 = "\<lparr>read_text = Some, open_pdf = (\<lambda>data. None), ocr_image = (\<lambda>data n. None)\<rparr>"
  let ?r3 = "\<lparr>is_encrypted = False, decrypt_raises = False, pages = None\<rparr>"
  let ?L3 = "\<lparr>read_text = Some, open_pdf = (\<lambda>data. Some ?r3), ocr_image = (\<lambda>data n. None)\<rparr>"
  let ?r4 = "\<lparr>is_encrypted = False, decrypt_raises = False,
              pages = Some [Some ''first page'', None]\<rparr>"
  let ?L4 = "\<lparr>read_text = Some, open_pdf = (\<lambda>data. Some ?r4), ocr_image = (\<lambda>data n. None)\<rparr>"
  have h1: "open_pdf ?L1 ''locked'' = Some ?r1 \<and> is_encrypted ?r1 \<and> decrypt_raises ?r1"
    by simp
  have a: "PdfParser_parse_traced ?L1 ''locked'' = (''Unable to decrypt PDF'', [Decrypt])"
    using PdfParser_parse_failure_strings [where L = ?L1 and data = "''locked''" and reader = ?r1]
      h1 by blast
  have h2: "open_pdf ?L2 ''not a pdf'' = None" by simp
  have b: "PdfParser_parse_traced ?L2 ''not a pdf'' = (''Error processing PDF file'', [])"
    using PdfParser_parse_failure_strings [where L = ?L2 and data = "''not a pdf''"] h2
    by blast
  have h3: "open_pdf ?L3 ''truncated'' = Some ?r3
      \<and> \<not> (is_encrypted ?r3 \<and> decrypt_raises ?r3) \<and> pages ?r3 = None"
    by simp
  have c: "PdfParser_parse ?L3 ''truncated'' = ''Error processing PDF file''"
    using PdfParser_parse_failure_strings
      [where L = ?L3 and data = "''truncated''" and reader = ?r3] h3
    by blast
  have h4: "open_pdf ?L4 ''damaged'' = Some ?r4
      \<and> \<not> (is_encrypted ?r4 \<and> decrypt_raises ?r4)
      \<and> pages ?r4 = Some [Some ''first page'', None] \<and> None \<in> set [Some ''first page'', None]"
    by simp
  have d: "PdfParser_parse ?L4 ''damaged'' = ''Error processing PDF file''"
    using PdfParser_parse_failure_strings
      [where L = ?L4 and data = "''damaged''" and reader = ?r4
         and ps = "[Some ''first page'', None]"] h4
    by blast
  from a b c d show ?thesis by blast
qed

lemma OcrPage_in_page_events:
  "OcrPage i \<in> set (concat (map page_events (enumerate 0 texts)))
     \<longleftrightarrow> i < length texts \<and> texts ! i = []"
proof
  assume "OcrPage i \<in> set (concat (map page_events (enumerate 0 texts)))"
  then obtain p where "p \<in> set (enumerate 0 texts)" and "OcrPage i \<in> set (page_events p)"
    by auto
  then show "i < length texts \<and> texts ! i = []"
    by (auto simp: in_set_enumerate_eq page_events_def split: if_splits)
next
  assume h: "i < length texts \<and> texts ! i = []"
  then have "(i, []) \<in> set (enumerate 0 texts)"
    by (simp add: in_set_enumerate_eq)
  moreover have "OcrPage i \<in> set (page_events (i, []))"
    by (simp add: page_events_def)
  ultimately show "OcrPage i \<in> set (concat (map page_events (enumerate 0 texts)))"
    by (metis (no_types, lifting) UN_I set_concat set_map image_eqI)
qed

lemma ExtractText_in_page_events:
  "ExtractText i \<in> set (concat (map page_events (enumerate 0 texts))) \<longleftrightarrow> i < length texts"
proof
  assume "ExtractText i \<in> set (concat (map page_events (enumerate 0 texts)))"
  then obtain p where "p \<in> set (enumerate 0 texts)" and "ExtractText i \<in> set (page_events p)"
    by auto
  then show "i < length texts"
    by (auto simp: in_set_enumerate_eq page_events_def split: if_splits)
next
  assume h: "i < length texts"
  then have "(i, texts ! i) \<in> set (enumerate 0 texts)"
    by (simp add: in_set_enumerate_eq)
  moreover have "ExtractText i \<in> set (page_events (i, texts ! i))"
    by (simp add: page_events_def)
  ultimately show "ExtractText i \<in> set (concat (map page_events (enumerate 0 texts)))"
    by (metis (no_types, lifting) UN_I set_concat set_map image_eqI)
qed

text \<open>
  C8. For a PDF that can be read (it opens, it is not encrypted or the decryption
  succeeds, its pages can be listed and the text extraction raises on none of them), the
  calls made on the pages are, page after page in page order, the direct extraction of
  the page followed by the OCR fallback exactly when the direct extraction gave the
  empty string; the OCR fallback is called for page \<open>i\<close> if and only if page \<open>i\<close> exists
  and its direct extraction is empty; and the returned text is the concatenation of the
  texts of the pages in page order, with nothing between them.
\<close>

theorem PdfParser_parse_readable:
  "open_pdf L data = Some reader \<and> \<not> (is_encrypted reader \<and> decrypt_raises reader)
     \<and> pages reader = Some (map Some texts) \<longrightarrow>
   PdfParser_parse L data = concat (map (page_text L data) (enumerate 0 texts))
   \<and> snd (PdfParser_parse_traced L data) =
        (if is_encrypted reader then [Decrypt] else [])
          @ concat (map page_events (enumerate 0 texts))
   \<and> (\<forall>i. OcrPage i \<in> set (snd (PdfParser_parse_traced L data))
            \<longleftrightarrow> i < length texts \<and> texts ! i = [])
   \<and> (\<forall>i. ExtractText i \<in> set (snd (PdfParser_parse_traced L data)) \<longleftrightarrow> i < length texts)"
proof
  assume h: "open_pdf L data = Some reader \<and> \<not> (is_encrypted reader \<and> decrypt_raises reader)
     \<and> pages reader = Some (map Some texts)"
  then have tr: "PdfParser_parse_traced L data =
     (concat (map (page_text L data) (enumerate 0 texts)),
      (if is_encrypted reader then [Decrypt] else [])
        @ concat (map page_events (enumerate 0 texts)))"
    using PdfParser_parse_traced_readable by blast
  have a: "PdfParser_parse L data = concat (map (page_text L data) (enumerate 0 texts))"
    by (simp add: PdfParser_parse_def tr)
  have b: "snd (PdfParser_parse_traced L data) =
        (if is_encrypted reader then [Decrypt] else [])
          @ concat (map page_events (enumerate 0 texts))"
    by (simp add: tr)
  have c: "\<forall>i. OcrPage i \<in> set (snd (PdfParser_parse_traced L data))
            \<longleftrightarrow> i < length texts \<and> texts ! i = []"
  proof
    fix i
    have "OcrPage i \<in> set (snd (PdfParser_parse_traced L data))
          \<longleftrightarrow> OcrPage i \<in> set (concat (map page_events (enumerate 0 texts)))"
      unfolding b by simp
    also have "\<dots> \<longleftrightarrow> i < length texts \<and> texts ! i = []"
      by (rule OcrPage_in_page_events)
    finally show "OcrPage i \<in> set (snd (PdfParser_parse_traced L data))
          \<longleftrightarrow> i < length texts \<and> texts ! i = []" .
  qed
  have d: "\<forall>i. ExtractText i \<in> set (snd (PdfParser_parse_traced L data)) \<longleftrightarrow> i < length texts"
  proof
    fix i
    have "ExtractText i \<in> set (snd (PdfParser_parse_traced L data))
          \<longleftrightarrow> ExtractText i \<in> set (concat (map page_events (enumerate 0 texts)))"
      unfolding b by simp
    also have "\<dots> \<longleftrightarrow> i < length texts"
      by (rule ExtractText_in_page_events)
    finally show "ExtractText i \<in> set (snd (PdfParser_parse_traced L data))
          \<longleftrightarrow> i < length texts" .
  qed
  from a b c d show "PdfParser_parse L data = concat (map (page_text L data) (enumerate 0 texts))
   \<and> snd (PdfParser_parse_traced L data) =
        (if is_encrypted reader then [Decrypt] else [])
          @ concat (map page_events (enumerate 0 texts))
   \<and> (\<forall>i. OcrPage i \<in> set (snd (PdfParser_parse_traced L data))
            \<longleftrightarrow> i < length texts \<and> texts ! i = [])
   \<and> (\<forall>i. ExtractText i \<in> set (snd (PdfParser_parse_traced L data)) \<longleftrightarrow> i < length texts)"
    by blast
qed

theorem PdfParser_parse_readable_witness:
  "PdfParser_parse
      \<lparr>read_text = Some,
       open_pdf = (\<lambda>data. Some \<lparr>is_encrypted = False, decrypt_raises = False,
                     pages = Some [Some ''Page one. '', Some '''', Some ''Page three.'']\<rparr>),
       ocr_image = (\<lambda>data n. Some ''Scanned two. '')\<rparr> ''bytes''
     = ''Page one. Scanned two. Page three.''
   \<and> snd (PdfParser_parse_traced
        \<lparr>read_text = Some,
         open_pdf = (\<lambda>data. Some \<lparr>is_encrypted = False, decrypt_raises = False,
                       pages = Some [Some ''Page one. '', Some '''', Some ''Page three.'']\<rparr>),
         ocr_image = (\<lambda>data n. Some ''Scanned two. '')\<rparr> ''bytes'')
     = [ExtractText 0, ExtractText 1, OcrPage 1, ExtractText 2]"
proof -
  let ?r = "\<lparr>is_encrypted = False, decrypt_raises = False,
             pages = Some [Some ''Page one. '', Some '''', Some ''Page three.'']\<rparr>"
  let ?L = "\<lparr>read_text = Some, open_pdf = (\<lambda>data. Some ?r),
             ocr_image = (\<lambda>data n. Some ''Scanned two. '')\<rparr>"
  let ?texts = "[''Page one. '', '''', ''Page three.'']"
  have h: "open_pdf ?L ''bytes'' = Some ?r \<and> \<not> (is_encrypted ?r \<and> decrypt_raises ?r)
     \<and> pages ?r = Some (map Some ?texts)"
    by simp
  have en: "enumerate 0 ?texts = [(0, ''Page one. ''), (Suc 0, ''''), (Suc (Suc 0), ''Page three.'')]"
    by simp
  have "PdfParser_parse ?L ''bytes'' = concat (map (page_text ?L ''bytes'') (enumerate 0 ?texts))
     \<and> snd (PdfParser_parse_traced ?L ''bytes'') =
        (if is_encrypted ?r then [Decrypt] else []) @ concat (map page_events (enumerate 0 ?texts))"
    using PdfParser_parse_readable
      [where L = ?L and data = "''bytes''" and reader = ?r and texts = ?texts] h
    by blast
  then show ?thesis
    unfolding en by (simp add: page_text_def page_events_def)
qed

section \<open>A page whose OCR fails\<close>

text \<open>
  C6 (as stated). The claim gives a page whose OCR fallback fails the empty string as its
  contribution. For a document of two pages, the first with a text layer and the second
  with none and a failing OCR, the text returned ends with the contribution of the second
  page, which is the string "Error in OCR processing".
\<close>

theorem ocr_failure_counterexample:
  "PdfParser_parse
      \<lparr>read_text = Some,
       open_pdf = (\<lambda>data. Some \<lparr>is_encrypted = False, decrypt_raises = False,
                     pages = Some [Some ''Page one. '', Some '''']\<rparr>),
       ocr_image = (\<lambda>data n. None)\<rparr> ''bytes''
     = ''Page one. Error in OCR processing''"
  by (simp add: PdfParser_parse_def PdfParser_parse_traced_def PdfParser_try_def ocr_page_def)

text \<open>
  C6 (amended). For every page of a readable PDF whose direct extraction is empty and on
  which the OCR fallback fails, that page's contribution to the extracted document text is
  the string "Error in OCR processing" (the page is degraded, not aborted): the text
  returned is the text of the pages before it, then that string, then the text of the
  pages after it, so the text recovered from the other pages is preserved.
\<close>

theorem PdfParser_parse_ocr_failure:
  "open_pdf L data = Some reader \<and> \<not> (is_encrypted reader \<and> decrypt_raises reader)
     \<and> pages reader = Some (map Some texts)
     \<and> i < length texts \<and> texts ! i = [] \<and> ocr_image L data i = None \<longrightarrow>
   PdfParser_parse L data =
     concat (map (page_text L data) (enumerate 0 (take i texts)))
       @ ''Error in OCR processing''
       @ concat (map (page_text L data) (enumerate (Suc i) (drop (Suc i) texts)))"
proof
  assume h: "open_pdf L data = Some reader \<and> \<not> (is_encrypted reader \<and> decrypt_raises reader)
     \<and> pages reader = Some (map Some texts)
     \<and> i < length texts \<and> texts ! i = [] \<and> ocr_image L data i = None"
  then have "PdfParser_parse_traced L data =
     (concat (map (page_text L data) (enumerate 0 texts)),
      (if is_encrypted reader then [Decrypt] else [])
        @ concat (map page_events (enumerate 0 texts)))"
    using PdfParser_parse_traced_readable by blast
  then have whole: "PdfParser_parse L data = concat (map (page_text L data) (enumerate 0 texts))"
    by (simp add: PdfParser_parse_def)
  from h have split: "texts = take i texts @ [] # drop (Suc i) texts"
    using id_take_nth_drop [of i texts] by simp
  from h have len: "length (take i texts) = i" by simp
  have "enumerate 0 texts = enumerate 0 (take i texts @ [] # drop (Suc i) texts)"
    using split by simp
  also have "\<dots> = enumerate 0 (take i texts) @ (i, []) # enumerate (Suc i) (drop (Suc i) texts)"
    by (simp only: enumerate_append_eq len enumerate_simps) simp
  finally have en: "enumerate 0 texts =
      enumerate 0 (take i texts) @ (i, []) # enumerate (Suc i) (drop (Suc i) texts)" .
  from h have failed: "page_text L data (i, []) = ''Error in OCR processing''"
    by (simp add: page_text_def)
  show "PdfParser_parse L data =
     concat (map (page_text L data) (enumerate 0 (take i texts)))
       @ ''Error in OCR processing''
       @ concat (map (page_text L data) (enumerate (Suc i) (drop (Suc i) texts)))"
    unfolding whole by (subst en) (simp add: failed)
qed

theorem PdfParser_parse_ocr_failure_witness:
  "PdfParser_parse
      \<lparr>read_text = Some,
       open_pdf = (\<lambda>data. Some \<lparr>is_encrypted = False, decrypt_raises = False,
                     pages = Some [Some ''Page one. '', Some '''', Some ''Page three.'']\<rparr>),
       ocr_image = (\<lambda>data n. None)\<rparr> ''bytes''
     = ''Page one. Error in OCR processingPage three.''"
proof -
  let ?r = "\<lparr>is_encrypted = False, decrypt_raises = False,
             pages = Some [Some ''Page one. '', Some '''', Some ''Page three.'']\<rparr>"
  let ?L = "\<lparr>read_text = Some, open_pdf = (\<lambda>data. Some ?r), ocr_image = (\<lambda>data n. None)\<rparr>"
  let ?texts = "[''Page one. '', '''', ''Page three.'']"
  have h: "open_pdf ?L ''bytes'' = Some ?r \<and> \<not> (is_encrypted ?r \<and> decrypt_raises ?r)
     \<and> pages ?r = Some (map Some ?texts)
     \<and> Suc 0 < length ?texts \<and> ?texts ! Suc 0 = [] \<and> ocr_image ?L ''bytes'' (Suc 0) = None"
    by simp
  have "PdfParser_parse ?L ''bytes'' =
     concat (map (page_text ?L ''bytes'') (enumerate 0 (take (Suc 0) ?texts)))
       @ ''Error in OCR processing''
       @ concat (map (page_text ?L ''bytes'') (enumerate (Suc (Suc 0)) (drop (Suc (Suc 0)) ?texts)))"
    using PdfParser_parse_ocr_failure
      [where L = ?L and data = "''bytes''" and reader = ?r and texts = ?texts and i = "Suc 0"] h
    by blast
  then show ?thesis
    by (simp add: page_text_def)
qed

section \<open>Properties of the ingestion\<close>

lemma embed_chunks_result:
  "embed_chunks create_embedding fid chunks d =
     (if \<forall>c \<in> set chunks. create_embedding c \<noteq> None then None else Some LibraryError,
      d\<lparr>session_new := session_new d
           @ map (\<lambda>c. (fid, c, the (create_embedding c)))
               (takeWhile (\<lambda>c. create_embedding c \<noteq> None) chunks)\<rparr>)"
proof (induction chunks arbitrary: d)
  case Nil
  show ?case by simp
next
  case (Cons chunk rest)
  show ?case
  proof (cases "create_embedding chunk")
    case None
    then show ?thesis by simp
  next
    case (Some v)
    then show ?thesis by (simp add: Cons)
  qed
qed

lemma takeWhile_all: "\<forall>x \<in> set xs. P x \<Longrightarrow> takeWhile P xs = xs"
  by (induction xs) simp_all

lemma flush_rows:
  "flush n pending =
     map (\<lambda>(i, (fid, txt, v)).
            \<lparr>chunk_id = n + int i, file_id = fid, chunk_text = txt, embedding_vector = v\<rparr>)
       (enumerate 0 pending)"
proof (induction pending arbitrary: n)
  case Nil
  show ?case by simp
next
  case (Cons p pending)
  obtain owner t v where p: "p = (owner, t, v)" by (cases p)
  have "map (\<lambda>(i, (fid, txt, v)).
            \<lparr>chunk_id = n + int i, file_id = fid, chunk_text = txt, embedding_vector = v\<rparr>)
          (enumerate (Suc 0) pending)
        = map (\<lambda>(i, (fid, txt, v)).
            \<lparr>chunk_id = (n + 1) + int i, file_id = fid, chunk_text = txt, embedding_vector = v\<rparr>)
          (enumerate 0 pending)"
    by (simp add: enumerate_Suc_eq split_def)
  then show ?case
    by (simp add: p Cons [of "n + 1"])
qed

lemma enumerate_map:
  "enumerate n (map f xs) = map (\<lambda>(i, x). (i, f x)) (enumerate n xs)"
  by (induction xs arbitrary: n) simp_all

lemma flush_chunks:
  "flush n (map (\<lambda>c. (fid, c, f c)) chunks) =
     map (\<lambda>(i, c). \<lparr>chunk_id = n + int i, file_id = fid, chunk_text = c,
                     embedding_vector = f c\<rparr>)
       (enumerate 0 chunks)"
  by (simp add: flush_rows enumerate_map split_def comp_def)

text \<open>
  C10. Let the chunker return the chunks of a document. If the embedding call fails for
  some chunk, \<open>chunk_and_embed\<close> ends with that exception, the objects added to the
  session are those of the chunks before the first failing one and of no later chunk, and
  the table of chunks is what it was: no chunk of the document is written. If the
  embedding call fails for no chunk, \<open>chunk_and_embed\<close> returns and the table has gained
  one row for every chunk of the document, in chunk order, with its text, its embedding
  and the document's id. So the table holds all the chunks of the document or none.
\<close>

theorem chunk_and_embed_all_or_nothing:
  "chunker sent_tokenize chunk_size T = Inr chunks \<longrightarrow>
     ((\<exists>c \<in> set chunks. create_embedding c = None) \<longrightarrow>
        fst (chunk_and_embed sent_tokenize create_embedding chunk_size fid d T)
          = Some LibraryError
        \<and> file_chunks (snd (chunk_and_embed sent_tokenize create_embedding chunk_size fid d T))
          = file_chunks d
        \<and> session_new (snd (chunk_and_embed sent_tokenize create_embedding chunk_size fid d T))
          = session_new d
              @ map (\<lambda>c. (fid, c, the (create_embedding c)))
                  (takeWhile (\<lambda>c. create_embedding c \<noteq> None) chunks))
     \<and> ((\<forall>c \<in> set chunks. create_embedding c \<noteq> None) \<and> session_new d = [] \<longrightarrow>
        fst (chunk_and_embed sent_tokenize create_embedding chunk_size fid d T) = None
        \<and> file_chunks (snd (chunk_and_embed sent_tokenize create_embedding chunk_size fid d T))
          = file_chunks d
              @ map (\<lambda>(i, c). \<lparr>chunk_id = next_chunk_id d + int i, file_id = fid,
                                chunk_text = c, embedding_vector = the (create_embedding c)\<rparr>)
                  (enumerate 0 chunks)
        \<and> session_new (snd (chunk_and_embed sent_tokenize create_embedding chunk_size fid d T))
          = [])"
proof
  assume ch: "chunker sent_tokenize chunk_size T = Inr chunks"
  let ?run = "chunk_and_embed sent_tokenize create_embedding chunk_size fid d T"
  let ?d' = "d\<lparr>session_new := session_new d
           @ map (\<lambda>c. (fid, c, the (create_embedding c)))
               (takeWhile (\<lambda>c. create_embedding c \<noteq> None) chunks)\<rparr>"
  have fail: "(\<exists>c \<in> set chunks. create_embedding c = None) \<longrightarrow>
        fst ?run = Some LibraryError \<and> file_chunks (snd ?run) = file_chunks d
        \<and> session_new (snd ?run) = session_new d
              @ map (\<lambda>c. (fid, c, the (create_embedding c)))
                  (takeWhile (\<lambda>c. create_embedding c \<noteq> None) chunks)"
  proof
    assume "\<exists>c \<in> set chunks. create_embedding c = None"
    then have "embed_chunks create_embedding fid chunks d = (Some LibraryError, ?d')"
      by (subst embed_chunks_result) auto
    then have "?run = (Some LibraryError, ?d')"
      by (simp add: chunk_and_embed_def ch)
    then show "fst ?run = Some LibraryError \<and> file_chunks (snd ?run) = file_chunks d
        \<and> session_new (snd ?run) = session_new d
              @ map (\<lambda>c. (fid, c, the (create_embedding c)))
                  (takeWhile (\<lambda>c. create_embedding c \<noteq> None) chunks)"
      by simp
  qed
  have ok: "(\<forall>c \<in> set chunks. create_embedding c \<noteq> None) \<and> session_new d = [] \<longrightarrow>
        fst ?run = None
        \<and> file_chunks (snd ?run) = file_chunks d
              @ map (\<lambda>(i, c). \<lparr>chunk_id = next_chunk_id d + int i, file_id = fid,
                                chunk_text = c, embedding_vector = the (create_embedding c)\<rparr>)
                  (enumerate 0 chunks)
        \<and> session_new (snd ?run) = []"
  proof
    assume h: "(\<forall>c \<in> set chunks. create_embedding c \<noteq> None) \<and> session_new d = []"
    then have tw: "takeWhile (\<lambda>c. create_embedding c \<noteq> None) chunks = chunks"
      by (simp add: takeWhile_all)
    let ?p = "d\<lparr>session_new := map (\<lambda>c. (fid, c, the (create_embedding c))) chunks\<rparr>"
    have "embed_chunks create_embedding fid chunks d =
        (if \<forall>c \<in> set chunks. create_embedding c \<noteq> None then None else Some LibraryError,
         d\<lparr>session_new := session_new d
              @ map (\<lambda>c. (fid, c, the (create_embedding c))) chunks\<rparr>)"
      using embed_chunks_result [of create_embedding fid chunks d] unfolding tw .
    then have "embed_chunks create_embedding fid chunks d = (None, ?p)"
      using h by simp
    then have run: "?run = (None, commit ?p)"
      by (simp add: chunk_and_embed_def ch)
    show "fst ?run = None
        \<and> file_chunks (snd ?run) = file_chunks d
              @ map (\<lambda>(i, c). \<lparr>chunk_id = next_chunk_id d + int i, file_id = fid,
                                chunk_text = c, embedding_vector = the (create_embedding c)\<rparr>)
                  (enumerate 0 chunks)
        \<and> session_new (snd ?run) = []"
      unfolding run by (simp add: commit_def flush_chunks)
  qed
  from fail ok show "((\<exists>c \<in> set chunks. create_embedding c = None) \<longrightarrow>
        fst ?run = Some LibraryError \<and> file_chunks (snd ?run) = file_chunks d
        \<and> session_new (snd ?run) = session_new d
              @ map (\<lambda>c. (fid, c, the (create_embedding c)))
                  (takeWhile (\<lambda>c. create_embedding c \<noteq> None) chunks))
     \<and> ((\<forall>c \<in> set chunks. create_embedding c \<noteq> None) \<and> session_new d = [] \<longrightarrow>
        fst ?run = None
        \<and> file_chunks (snd ?run) = file_chunks d
              @ map (\<lambda>(i, c). \<lparr>chunk_id = next_chunk_id d + int i, file_id = fid,
                                chunk_text = c, embedding_vector = the (create_embedding c)\<rparr>)
                  (enumerate 0 chunks)
        \<and> session_new (snd ?run) = [])"
    by blast
qed

theorem chunk_and_embed_all_or_nothing_witness:
  "chunker (\<lambda>t. [''A.'', ''B.'', ''C.'']) 2 ''A. B. C.'' = Inr [''A. B.'', ''C.'']
   \<and> fst (chunk_and_embed (\<lambda>t. [''A.'', ''B.'', ''C.''])
             (\<lambda>c. if c = ''A. B.'' then Some [1, 0] else None) 2 7
             \<lparr>files_table = [], file_chunks = [], next_file_id = 8, next_chunk_id = 1,
              session_new = []\<rparr> ''A. B. C.'')
       = Some LibraryError
   \<and> file_chunks (snd (chunk_and_embed (\<lambda>t. [''A.'', ''B.'', ''C.''])
             (\<lambda>c. if c = ''A. B.'' then Some [1, 0] else None) 2 7
             \<lparr>files_table = [], file_chunks = [], next_file_id = 8, next_chunk_id = 1,
              session_new = []\<rparr> ''A. B. C.''))
       = []
   \<and> session_new (snd (chunk_and_embed (\<lambda>t. [''A.'', ''B.'', ''C.''])
             (\<lambda>c. if c = ''A. B.'' then Some [1, 0] else None) 2 7
             \<lparr>files_table = [], file_chunks = [], next_file_id = 8, next_chunk_id = 1,
              session_new = []\<rparr> ''A. B. C.''))
       = [(7, ''A. B.'', [1, 0])]
   \<and> fst (chunk_and_embed (\<lambda>t. [''A.'', ''B.'', ''C.'']) (\<lambda>c. Some [1, 0]) 2 7
             \<lparr>files_table = [], file_chunks = [], next_file_id = 8, next_chunk_id = 1,
              session_new = []\<rparr> ''A. B. C.'')
       = None
   \<and> file_chunks (snd (chunk_and_embed (\<lambda>t. [''A.'', ''B.'', ''C.'']) (\<lambda>c. Some [1, 0]) 2 7
             \<lparr>files_table = [], file_chunks = [], next_file_id = 8, next_chunk_id = 1,
              session_new = []\<rparr> ''A. B. C.''))
       = [\<lparr>chunk_id = 1, file_id = 7, chunk_text = ''A. B.'', embedding_vector = [1, 0]\<rparr>,
          \<lparr>chunk_id = 2, file_id = 7, chunk_text = ''C.'', embedding_vector = [1, 0]\<rparr>]"
proof -
  let ?tok = "\<lambda>t::string. [''A.'', ''B.'', ''C.'']"
  let ?ce1 = "\<lambda>c. if c = ''A. B.'' then Some [1, 0 :: real] else None"
  let ?ce2 = "\<lambda>c::string. Some [1, 0 :: real]"
  let ?d = "\<lparr>files_table = [], file_chunks = [], next_file_id = 8, next_chunk_id = 1,
             session_new = []\<rparr>"
  let ?chunks = "[''A. B.'', ''C.'']"
  have ch: "chunker ?tok 2 ''A. B. C.'' = Inr ?chunks"
    by (simp add: chunker_def chunks_of_def py_range_def range_from.simps py_slice_def)
  have bad: "\<exists>c \<in> set ?chunks. ?ce1 c = None" by simp
  have good: "(\<forall>c \<in> set ?chunks. ?ce2 c \<noteq> None) \<and> session_new ?d = []" by simp
  have tw: "takeWhile (\<lambda>c. ?ce1 c \<noteq> None) ?chunks = [''A. B.'']" by simp
  have en: "enumerate 0 ?chunks = [(0, ''A. B.''), (Suc 0, ''C.'')]" by simp
  have a: "fst (chunk_and_embed ?tok ?ce1 2 7 ?d ''A. B. C.'') = Some LibraryError
      \<and> file_chunks (snd (chunk_and_embed ?tok ?ce1 2 7 ?d ''A. B. C.'')) = file_chunks ?d
      \<and> session_new (snd (chunk_and_embed ?tok ?ce1 2 7 ?d ''A. B. C.''))
          = session_new ?d @ map (\<lambda>c. (7, c, the (?ce1 c)))
                               (takeWhile (\<lambda>c. ?ce1 c \<noteq> None) ?chunks)"
    using chunk_and_embed_all_or_nothing
      [where sent_tokenize = ?tok and chunk_size = 2 and T = "''A. B. C.''"
         and chunks = ?chunks and create_embedding = ?ce1 and fid = 7 and d = ?d] ch bad
    by blast
  have b: "fst (chunk_and_embed ?tok ?ce2 2 7 ?d ''A. B. C.'') = None
      \<and> file_chunks (snd (chunk_and_embed ?tok ?ce2 2 7 ?d ''A. B. C.''))
          = file_chunks ?d
              @ map (\<lambda>(i, c). \<lparr>chunk_id = next_chunk_id ?d + int i, file_id = 7,
                                chunk_text = c, embedding_vector = the (?ce2 c)\<rparr>)
                  (enumerate 0 ?chunks)"
    using chunk_and_embed_all_or_nothing
      [where sent_tokenize = ?tok and chunk_size = 2 and T = "''A. B. C.''"
         and chunks = ?chunks and create_embedding = ?ce2 and fid = 7 and d = ?d] ch good
    by blast
  from a have a': "fst (chunk_and_embed ?tok ?ce1 2 7 ?d ''A. B. C.'') = Some LibraryError
      \<and> file_chunks (snd (chunk_and_embed ?tok ?ce1 2 7 ?d ''A. B. C.'')) = []
      \<and> session_new (snd (chunk_and_embed ?tok ?ce1 2 7 ?d ''A. B. C.''))
          = [(7, ''A. B.'', [1, 0])]"
    unfolding tw by simp
  from b have b': "fst (chunk_and_embed ?tok ?ce2 2 7 ?d ''A. B. C.'') = None
      \<and> file_chunks (snd (chunk_and_embed ?tok ?ce2 2 7 ?d ''A. B. C.''))
          = [\<lparr>chunk_id = 1, file_id = 7, chunk_text = ''A. B.'', embedding_vector = [1, 0]\<rparr>,
             \<lparr>chunk_id = 2, file_id = 7, chunk_text = ''C.'', embedding_vector = [1, 0]\<rparr>]"
    unfolding en by simp
  from ch a' b' show ?thesis by blast
qed

section \<open>Properties of the retrieval\<close>

lemma l2_distance_euclidean: "l2_distance u v = euclidean_distance u v"
proof -
  have "(\<Sum>(a, b) \<leftarrow> zip u v. (a - b)\<^sup>2)
        = (\<Sum>i = 0..<length (zip u v). (map (\<lambda>(a, b). (a - b)\<^sup>2) (zip u v)) ! i)"
    by (simp add: sum_list_sum_nth)
  also have "\<dots> = (\<Sum>i = 0..<min (length u) (length v). (u ! i - v ! i)\<^sup>2)"
    by (rule sum.cong) simp_all
  also have "\<dots> = (\<Sum>i < min (length u) (length v). (u ! i - v ! i)\<^sup>2)"
    by (simp add: atLeast0LessThan)
  finally show ?thesis
    by (simp add: l2_distance_def euclidean_distance_def)
qed

lemma mset_take_subset: "mset (take n xs) \<subseteq># mset xs"
proof -
  have "mset xs = mset (take n xs) + mset (drop n xs)"
    by (metis append_take_drop_id mset_append)
  then show ?thesis by simp
qed

lemma mset_minus_take: "mset xs - mset (take n xs) = mset (drop n xs)"
proof -
  have "mset xs = mset (take n xs) + mset (drop n xs)"
    by (metis append_take_drop_id mset_append)
  then show ?thesis by simp
qed

lemma sorted_take_le_drop:
  assumes "sorted (map f xs)" and "r \<in> set (take n xs)" and "c \<in> set (drop n xs)"
  shows "f r \<le> f c"
proof -
  have "sorted (map f (take n xs) @ map f (drop n xs))"
    using assms(1) by (metis append_take_drop_id map_append)
  then show ?thesis
    using assms(2,3) by (auto simp: sorted_append)
qed



lemma similar_chunks_sorted_take:
  "similar_chunks rows fid q =
     take 10 (sort_key (\<lambda>c. euclidean_distance (embedding_vector c) q)
                (filter (\<lambda>c. file_id c = fid) rows))"
  by (simp add: similar_chunks_def l2_distance_euclidean)

text \<open>
  C2. Let \<open>owned\<close> be the rows of the table that belong to the document and \<open>res\<close> the
  rows the query of lines 84-86 returns. Then \<open>res\<close> has at most 10 rows; every row of
  \<open>res\<close> is a row of the table that belongs to the document; \<open>res\<close> is sorted by
  non-decreasing Euclidean distance between the stored vector and the query embedding;
  it takes each owned row at most once, and every owned row left out is at least as far
  from the query as every row returned; it has exactly \<open>min 10 (length owned)\<close> rows, so
  none when the document owns no chunk and exactly 3 when it owns 3. The endpoint returns
  the chunk id and chunk text of these rows, in this order, whenever the question can be
  embedded, and the empty list, not an error, for a document that owns no chunk.
\<close>

theorem find_similar_chunks_ranked:
  "res = similar_chunks rows fid q \<and> owned = filter (\<lambda>c. file_id c = fid) rows \<longrightarrow>
     length res \<le> 10
     \<and> (\<forall>c \<in> set res. c \<in> set rows \<and> file_id c = fid)
     \<and> sorted (map (\<lambda>c. euclidean_distance (embedding_vector c) q) res)
     \<and> mset res \<subseteq># mset owned
     \<and> (\<forall>r \<in> set res. \<forall>c \<in># mset owned - mset res.
            euclidean_distance (embedding_vector r) q
              \<le> euclidean_distance (embedding_vector c) q)
     \<and> length res = min 10 (length owned)
     \<and> (owned = [] \<longrightarrow> res = [])
     \<and> (length owned = 3 \<longrightarrow> length res = 3)
     \<and> (create_embedding question = Some q \<longrightarrow>
          find_similar_chunks create_embedding scan d fid question =
            Inr (map (\<lambda>c. (chunk_id c, chunk_text c))
                   (similar_chunks (scan (file_chunks d)) fid q)))
     \<and> (create_embedding question = Some q
          \<and> (\<forall>c \<in> set (scan (file_chunks d)). file_id c \<noteq> fid) \<longrightarrow>
          find_similar_chunks create_embedding scan d fid question = Inr [])"
proof
  assume h: "res = similar_chunks rows fid q \<and> owned = filter (\<lambda>c. file_id c = fid) rows"
  let ?key = "\<lambda>c. euclidean_distance (embedding_vector c) q"
  let ?sorted = "sort_key ?key owned"
  from h have res: "res = take 10 ?sorted"
    by (simp add: similar_chunks_sorted_take)
  have a: "length res \<le> 10"
    by (simp add: res)
  have b: "\<forall>c \<in> set res. c \<in> set rows \<and> file_id c = fid"
  proof
    fix c assume "c \<in> set res"
    then have "c \<in> set ?sorted" unfolding res by (rule in_set_takeD)
    then show "c \<in> set rows \<and> file_id c = fid" using h by simp
  qed
  have srt: "sorted (map ?key ?sorted)"
    by (rule sorted_sort_key)
  have c: "sorted (map ?key res)"
    unfolding res using srt by (simp add: take_map [symmetric] sorted_wrt_take)
  have d: "mset res \<subseteq># mset owned"
    unfolding res using mset_take_subset [of 10 ?sorted] by simp
  have e: "\<forall>r \<in> set res. \<forall>c \<in># mset owned - mset res. ?key r \<le> ?key c"
  proof (intro ballI)
    fix r c
    assume r: "r \<in> set res" and "c \<in># mset owned - mset res"
    moreover have "mset owned - mset (take 10 ?sorted) = mset (drop 10 ?sorted)"
      using mset_minus_take [of ?sorted 10] by simp
    ultimately have "c \<in># mset (drop 10 ?sorted)"
      by (simp only: res)
    then have "c \<in> set (drop 10 ?sorted)"
      by simp
    with r show "?key r \<le> ?key c"
      unfolding res using sorted_take_le_drop [OF srt] by blast
  qed
  have f: "length res = min 10 (length owned)"
    by (simp add: res min.commute)
  have g: "owned = [] \<longrightarrow> res = []"
    by (simp add: res)
  have i: "length owned = 3 \<longrightarrow> length res = 3"
    by (simp add: f)
  have j: "create_embedding question = Some q \<longrightarrow>
          find_similar_chunks create_embedding scan d fid question =
            Inr (map (\<lambda>c. (chunk_id c, chunk_text c))
                   (similar_chunks (scan (file_chunks d)) fid q))"
    by (simp add: find_similar_chunks_def formatted_response_def)
  have k: "create_embedding question = Some q
          \<and> (\<forall>c \<in> set (scan (file_chunks d)). file_id c \<noteq> fid) \<longrightarrow>
          find_similar_chunks create_embedding scan d fid question = Inr []"
  proof
    assume z: "create_embedding question = Some q
          \<and> (\<forall>c \<in> set (scan (file_chunks d)). file_id c \<noteq> fid)"
    then have "filter (\<lambda>c. file_id c = fid) (scan (file_chunks d)) = []"
      by (simp add: filter_empty_conv)
    then have "similar_chunks (scan (file_chunks d)) fid q = []"
      by (simp add: similar_chunks_def)
    with z show "find_similar_chunks create_embedding scan d fid question = Inr []"
      by (simp add: find_similar_chunks_def formatted_response_def)
  qed
  from a b c d e f g i j k show "length res \<le> 10
     \<and> (\<forall>c \<in> set res. c \<in> set rows \<and> file_id c = fid)
     \<and> sorted (map (\<lambda>c. euclidean_distance (embedding_vector c) q) res)
     \<and> mset res \<subseteq># mset owned
     \<and> (\<forall>r \<in> set res. \<forall>c \<in># mset owned - mset res.
            euclidean_distance (embedding_vector r) q
              \<le> euclidean_distance (embedding_vector c) q)
     \<and> length res = min 10 (length owned)
     \<and> (owned = [] \<longrightarrow> res = [])
     \<and> (length owned = 3 \<longrightarrow> length res = 3)
     \<and> (create_embedding question = Some q \<longrightarrow>
          find_similar_chunks create_embedding scan d fid question =
            Inr (map (\<lambda>c. (chunk_id c, chunk_text c))
                   (similar_chunks (scan (file_chunks d)) fid q)))
     \<and> (create_embedding question = Some q
          \<and> (\<forall>c \<in> set (scan (file_chunks d)). file_id c \<noteq> fid) \<longrightarrow>
          find_similar_chunks create_embedding scan d fid question = Inr [])"
    by blast
qed

theorem find_similar_chunks_ranked_witness:
  "similar_chunks
      [\<lparr>chunk_id = 1, file_id = 7, chunk_text = ''far'', embedding_vector = [3]\<rparr>,
       \<lparr>chunk_id = 2, file_id = 7, chunk_text = ''near'', embedding_vector = [1]\<rparr>,
       \<lparr>chunk_id = 3, file_id = 9, chunk_text = ''other'', embedding_vector = [0]\<rparr>,
       \<lparr>chunk_id = 4, file_id = 7, chunk_text = ''mid'', embedding_vector = [2]\<rparr>] 7 [0]
     = [\<lparr>chunk_id = 2, file_id = 7, chunk_text = ''near'', embedding_vector = [1]\<rparr>,
        \<lparr>chunk_id = 4, file_id = 7, chunk_text = ''mid'', embedding_vector = [2]\<rparr>,
        \<lparr>chunk_id = 1, file_id = 7, chunk_text = ''far'', embedding_vector = [3]\<rparr>]
   \<and> find_similar_chunks (\<lambda>s. Some [0]) (\<lambda>rows. rows)
        \<lparr>files_table = [],
         file_chunks =
           [\<lparr>chunk_id = 1, file_id = 7, chunk_text = ''far'', embedding_vector = [3]\<rparr>,
            \<lparr>chunk_id = 2, file_id = 7, chunk_text = ''near'', embedding_vector = [1]\<rparr>,
            \<lparr>chunk_id = 3, file_id = 9, chunk_text = ''other'', embedding_vector = [0]\<rparr>,
            \<lparr>chunk_id = 4, file_id = 7, chunk_text = ''mid'', embedding_vector = [2]\<rparr>],
         next_file_id = 10, next_chunk_id = 5, session_new = []\<rparr> 7 ''which one?''
     = Inr [(2, ''near''), (4, ''mid''), (1, ''far'')]
   \<and> find_similar_chunks (\<lambda>s. Some [0]) (\<lambda>rows. rows)
        \<lparr>files_table = [],
         file_chunks =
           [\<lparr>chunk_id = 1, file_id = 7, chunk_text = ''far'', embedding_vector = [3]\<rparr>,
            \<lparr>chunk_id = 2, file_id = 7, chunk_text = ''near'', embedding_vector = [1]\<rparr>,
            \<lparr>chunk_id = 3, file_id = 9, chunk_text = ''other'', embedding_vector = [0]\<rparr>,
            \<lparr>chunk_id = 4, file_id = 7, chunk_text = ''mid'', embedding_vector = [2]\<rparr>],
         next_file_id = 10, next_chunk_id = 5, session_new = []\<rparr> 5 ''which one?''
     = Inr []"
proof -
  let ?c1 = "\<lparr>chunk_id = 1, file_id = 7, chunk_text = ''far'', embedding_vector = [3]\<rparr>"
  let ?c2 = "\<lparr>chunk_id = 2, file_id = 7, chunk_text = ''near'', embedding_vector = [1]\<rparr>"
  let ?c3 = "\<lparr>chunk_id = 3, file_id = 9, chunk_text = ''other'', embedding_vector = [0]\<rparr>"
  let ?c4 = "\<lparr>chunk_id = 4, file_id = 7, chunk_text = ''mid'', embedding_vector = [2]\<rparr>"
  let ?rows = "[?c1, ?c2, ?c3, ?c4]"
  let ?d = "\<lparr>files_table = [], file_chunks = ?rows, next_file_id = 10, next_chunk_id = 5,
             session_new = []\<rparr>"
  let ?ce = "\<lambda>s::string. Some [0::real]"
  let ?scan = "\<lambda>rows::FileChunk list. rows"
  have owned: "filter (\<lambda>c. file_id c = 7) ?rows = [?c1, ?c2, ?c4]"
    by simp
  have res: "similar_chunks ?rows 7 [0] = [?c2, ?c4, ?c1]"
    unfolding similar_chunks_def owned by (simp add: l2_distance_def)
  have emb: "?ce ''which one?'' = Some [0]" by simp
  have none5: "\<forall>c \<in> set (?scan (file_chunks ?d)). file_id c \<noteq> 5" by simp
  have prem7: "[?c2, ?c4, ?c1] = similar_chunks ?rows 7 [0]
      \<and> [?c1, ?c2, ?c4] = filter (\<lambda>c. file_id c = 7) ?rows"
    using res [symmetric] owned [symmetric] by (rule conjI)
  note all7 = mp [OF find_similar_chunks_ranked
      [where res = "[?c2, ?c4, ?c1]" and rows = ?rows and fid = 7 and q = "[0]"
         and owned = "[?c1, ?c2, ?c4]" and create_embedding = ?ce
         and question = "''which one?''" and scan = ?scan and d = ?d] prem7]
  from all7 have "?ce ''which one?'' = Some [0] \<longrightarrow>
      find_similar_chunks ?ce ?scan ?d 7 ''which one?'' =
      Inr (map (\<lambda>c. (chunk_id c, chunk_text c)) (similar_chunks (?scan (file_chunks ?d)) 7 [0]))"
    by (elim conjE) assumption
  then have a: "find_similar_chunks ?ce ?scan ?d 7 ''which one?'' =
      Inr (map (\<lambda>c. (chunk_id c, chunk_text c)) (similar_chunks (?scan (file_chunks ?d)) 7 [0]))"
    using emb by (rule mp)
  have owned5: "filter (\<lambda>c. file_id c = 5) ?rows = []" by simp
  have res5: "similar_chunks ?rows 5 [0] = []"
    unfolding similar_chunks_def owned5 by simp
  have prem5: "[] = similar_chunks ?rows 5 [0] \<and> [] = filter (\<lambda>c. file_id c = 5) ?rows"
    using res5 [symmetric] owned5 [symmetric] by (rule conjI)
  note all5 = mp [OF find_similar_chunks_ranked
      [where res = "[]" and rows = ?rows and fid = 5 and q = "[0]"
         and owned = "[]" and create_embedding = ?ce
         and question = "''which one?''" and scan = ?scan and d = ?d] prem5]
  from all5 have "?ce ''which one?'' = Some [0]
        \<and> (\<forall>c \<in> set (?scan (file_chunks ?d)). file_id c \<noteq> 5) \<longrightarrow>
      find_similar_chunks ?ce ?scan ?d 5 ''which one?'' = Inr []"
    by (elim conjE) assumption
  then have b: "find_similar_chunks ?ce ?scan ?d 5 ''which one?'' = Inr []"
    using conjI [OF emb none5] by (rule mp)
  have a': "find_similar_chunks ?ce ?scan ?d 7 ''which one?''
      = Inr [(2, ''near''), (4, ''mid''), (1, ''far'')]"
    using a res by simp
  from res a' b show ?thesis by blast
qed

section \<open>Rows at equal distance\<close>




section \<open>Properties of the upload\<close>

lemma extension_of_os_path_join:
  assumes "CHR ''.'' \<in> set filename"
  shows "extension_of (os_path_join folder filename) = extension_of filename"
proof -
  from assms obtain a e where f: "filename = a @ CHR ''.'' # e" and e: "CHR ''.'' \<notin> set e"
    using split_list_last [of "CHR ''.''" filename] by blast
  obtain pre where "os_path_join folder filename = pre @ filename"
  proof (cases "take 1 filename = ''/''")
    case True
    then have "os_path_join folder filename = [] @ filename"
      by (simp add: os_path_join_def)
    then show ?thesis by (rule that)
  next
    case False
    then have "os_path_join folder filename = folder @ filename
        \<or> os_path_join folder filename = (folder @ ''/'') @ filename"
      by (simp add: os_path_join_def)
    then show ?thesis using that by blast
  qed
  then have "os_path_join folder filename = (pre @ a) @ CHR ''.'' # e"
    using f by simp
  moreover have "extension_of ((pre @ a) @ CHR ''.'' # e) = e"
    by (rule extension_of_suffix [OF e])
  ultimately have "extension_of (os_path_join folder filename) = e"
    by simp
  moreover have "extension_of filename = e"
    unfolding f by (rule extension_of_suffix [OF e])
  ultimately show ?thesis by simp
qed

lemma FileParser_parse_not_found:
  "files filepath = None \<Longrightarrow> \<exists>err. FileParser_parse L files filepath = Inl err"
  by (auto simp: FileParser_parse_def split: sum.splits)

lemma upload_file_allowed:
  "extension_of filename \<in> {''txt'', ''pdf''} \<Longrightarrow>
   upload_file L w filename uploaded =
     (case FileParser_parse L (disk w) (os_path_join ''sources'' filename) of
        Inl err \<Rightarrow> (Inl (HTTPException 500), w)
      | Inr file_text_content \<Rightarrow>
          (Inr (''File saved'', filename),
           w\<lparr>disk := (disk w)(os_path_join ''sources'' filename \<mapsto> uploaded),
             database := (database w)
               \<lparr>files_table := files_table (database w)
                  @ [\<lparr>File.file_id = next_file_id (database w), file_name = filename,
                      file_content = file_text_content\<rparr>],
                next_file_id := next_file_id (database w) + 1\<rparr>,
             background_tasks :=
               background_tasks w @ [(next_file_id (database w), file_text_content)]\<rparr>))"
  by (auto simp: upload_file_def extension_of_def allowed_extensions_def Let_def
      split: sum.splits)

text \<open>
  C4 (as stated). The claim is about every upload request. A request for the file name
  \<open>report.exe\<close>, with no file at \<open>sources/report.exe\<close>, fails with status 400, not 500:
  the extension is refused before anything is parsed. A request for the file name
  \<open>txt\<close> passes that check, and with a stale file at \<open>sources/txt\<close> it fails with status
  500 and stores nothing, because \<open>FileParser\<close> takes \<open>sources/txt\<close> for the extension
  of the path.
\<close>

theorem upload_file_counterexample:
  "os_path_join ''sources'' ''report.exe'' = ''sources/report.exe''
   \<and> upload_file \<lparr>read_text = Some, open_pdf = (\<lambda>data. None), ocr_image = (\<lambda>data n. None)\<rparr>
        \<lparr>disk = Map.empty,
         database = \<lparr>files_table = [], file_chunks = [], next_file_id = 1,
                      next_chunk_id = 1, session_new = []\<rparr>,
         background_tasks = []\<rparr> ''report.exe'' ''bytes''
     = (Inl (HTTPException 400),
        \<lparr>disk = Map.empty,
         database = \<lparr>files_table = [], file_chunks = [], next_file_id = 1,
                      next_chunk_id = 1, session_new = []\<rparr>,
         background_tasks = []\<rparr>)
   \<and> os_path_join ''sources'' ''txt'' = ''sources/txt''
   \<and> upload_file \<lparr>read_text = Some, open_pdf = (\<lambda>data. None), ocr_image = (\<lambda>data n. None)\<rparr>
        \<lparr>disk = [''sources/txt'' \<mapsto> ''old text''],
         database = \<lparr>files_table = [], file_chunks = [], next_file_id = 1,
                      next_chunk_id = 1, session_new = []\<rparr>,
         background_tasks = []\<rparr> ''txt'' ''new text''
     = (Inl (HTTPException 500),
        \<lparr>disk = [''sources/txt'' \<mapsto> ''old text''],
         database = \<lparr>files_table = [], file_chunks = [], next_file_id = 1,
                      next_chunk_id = 1, session_new = []\<rparr>,
         background_tasks = []\<rparr>)"
proof -
  have a: "os_path_join ''sources'' ''report.exe'' = ''sources/report.exe''"
    by (simp add: os_path_join_def)
  have b: "os_path_join ''sources'' ''txt'' = ''sources/txt''"
    by (simp add: os_path_join_def)
  have e: "extension_of ''sources/txt'' = ''sources/txt''"
    by (simp add: extension_of_def)
  have p: "FileParser_parse
      \<lparr>read_text = Some, open_pdf = (\<lambda>data. None), ocr_image = (\<lambda>data n. None)\<rparr>
      [''sources/txt'' \<mapsto> ''old text''] ''sources/txt'' = Inl ValueError"
    by (rule FileParser_parse_unregistered) (simp add: e)
  show ?thesis
    by (simp add: a b p upload_file_def allowed_extensions_def Let_def)
qed

text \<open>
  C4 (amended). A request whose file name does not end in \<open>.txt\<close> or \<open>.pdf\<close> (last
  dot-separated segment) is refused with status 400 and changes nothing. For every other
  upload request, \<open>upload_file\<close> runs \<open>FileParser.parse\<close> on the destination path
  \<open>os.path.join('sources', filename)\<close> (which is \<open>sources/<filename>\<close> for a relative
  file name) before the uploaded bytes are written to that path: if no file exists at
  that path the upload fails with status 500, no File record is stored and nothing is
  written; if a stale file exists there and the file name contains a dot, the upload
  succeeds and the document text stored in the File record, and handed to the background
  task, is the text extracted from the stale file, whatever the uploaded bytes are, while
  the uploaded bytes replace the stale file on disk.
\<close>

theorem upload_file_parses_before_write:
  "(extension_of filename \<notin> {''txt'', ''pdf''} \<longrightarrow>
      upload_file L w filename uploaded = (Inl (HTTPException 400), w))
   \<and> (take 1 filename \<noteq> ''/'' \<longrightarrow>
        os_path_join ''sources'' filename = ''sources/'' @ filename)
   \<and> (extension_of filename \<in> {''txt'', ''pdf''}
        \<and> disk w (os_path_join ''sources'' filename) = None \<longrightarrow>
        upload_file L w filename uploaded = (Inl (HTTPException 500), w))
   \<and> (extension_of filename \<in> {''txt'', ''pdf''} \<and> CHR ''.'' \<in> set filename
        \<and> disk w (os_path_join ''sources'' filename) = Some stale \<longrightarrow>
        FileParser_parse L (disk w) (os_path_join ''sources'' filename) =
          Inr (if extension_of filename = ''txt'' then TxtParser_parse L stale
               else PdfParser_parse L stale)
        \<and> upload_file L w filename uploaded =
          (Inr (''File saved'', filename),
           w\<lparr>disk := (disk w)(os_path_join ''sources'' filename \<mapsto> uploaded),
             database := (database w)
               \<lparr>files_table := files_table (database w)
                  @ [\<lparr>File.file_id = next_file_id (database w), file_name = filename,
                      file_content =
                        (if extension_of filename = ''txt'' then TxtParser_parse L stale
                         else PdfParser_parse L stale)\<rparr>],
                next_file_id := next_file_id (database w) + 1\<rparr>,
             background_tasks :=
               background_tasks w
                 @ [(next_file_id (database w),
                     (if extension_of filename = ''txt'' then TxtParser_parse L stale
                      else PdfParser_parse L stale))]\<rparr>)
        \<and> (\<forall>other. files_table (database (snd (upload_file L w filename other)))
                    = files_table (database (snd (upload_file L w filename uploaded)))))"
proof -
  let ?loc = "os_path_join ''sources'' filename"
  let ?text = "if extension_of filename = ''txt'' then TxtParser_parse L stale
               else PdfParser_parse L stale"
  have a: "extension_of filename \<notin> {''txt'', ''pdf''} \<longrightarrow>
      upload_file L w filename uploaded = (Inl (HTTPException 400), w)"
    by (simp add: upload_file_def extension_of_def allowed_extensions_def Let_def)
  have b: "take 1 filename \<noteq> ''/'' \<longrightarrow> ?loc = ''sources/'' @ filename"
    by (simp add: os_path_join_def)
  have c: "extension_of filename \<in> {''txt'', ''pdf''} \<and> disk w ?loc = None \<longrightarrow>
        upload_file L w filename uploaded = (Inl (HTTPException 500), w)"
  proof
    assume h: "extension_of filename \<in> {''txt'', ''pdf''} \<and> disk w ?loc = None"
    then obtain err where "FileParser_parse L (disk w) ?loc = Inl err"
      using FileParser_parse_not_found by blast
    with h show "upload_file L w filename uploaded = (Inl (HTTPException 500), w)"
      by (simp add: upload_file_allowed)
  qed
  have d: "extension_of filename \<in> {''txt'', ''pdf''} \<and> CHR ''.'' \<in> set filename
        \<and> disk w ?loc = Some stale \<longrightarrow>
        FileParser_parse L (disk w) ?loc = Inr ?text
        \<and> upload_file L w filename uploaded =
          (Inr (''File saved'', filename),
           w\<lparr>disk := (disk w)(?loc \<mapsto> uploaded),
             database := (database w)
               \<lparr>files_table := files_table (database w)
                  @ [\<lparr>File.file_id = next_file_id (database w), file_name = filename,
                      file_content = ?text\<rparr>],
                next_file_id := next_file_id (database w) + 1\<rparr>,
             background_tasks :=
               background_tasks w @ [(next_file_id (database w), ?text)]\<rparr>)
        \<and> (\<forall>other. files_table (database (snd (upload_file L w filename other)))
                    = files_table (database (snd (upload_file L w filename uploaded))))"
  proof
    assume h: "extension_of filename \<in> {''txt'', ''pdf''} \<and> CHR ''.'' \<in> set filename
        \<and> disk w ?loc = Some stale"
    then have ext: "extension_of ?loc = extension_of filename"
      by (simp add: extension_of_os_path_join)
    have parse: "FileParser_parse L (disk w) ?loc = Inr ?text"
    proof (cases "extension_of filename = ''txt''")
      case True
      with h ext show ?thesis by (simp add: FileParser_parse_txt)
    next
      case False
      with h have "extension_of filename = ''pdf''" by simp
      with h ext show ?thesis by (simp add: FileParser_parse_pdf)
    qed
    have up: "upload_file L w filename bytes =
          (Inr (''File saved'', filename),
           w\<lparr>disk := (disk w)(?loc \<mapsto> bytes),
             database := (database w)
               \<lparr>files_table := files_table (database w)
                  @ [\<lparr>File.file_id = next_file_id (database w), file_name = filename,
                      file_content = ?text\<rparr>],
                next_file_id := next_file_id (database w) + 1\<rparr>,
             background_tasks :=
               background_tasks w @ [(next_file_id (database w), ?text)]\<rparr>)" for bytes
      using h by (simp only: upload_file_allowed parse sum.case)
    have same: "\<forall>other. files_table (database (snd (upload_file L w filename other)))
                    = files_table (database (snd (upload_file L w filename uploaded)))"
      by (simp add: up)
    from parse up [of uploaded] same show "FileParser_parse L (disk w) ?loc = Inr ?text
        \<and> upload_file L w filename uploaded =
          (Inr (''File saved'', filename),
           w\<lparr>disk := (disk w)(?loc \<mapsto> uploaded),
             database := (database w)
               \<lparr>files_table := files_table (database w)
                  @ [\<lparr>File.file_id = next_file_id (database w), file_name = filename,
                      file_content = ?text\<rparr>],
                next_file_id := next_file_id (database w) + 1\<rparr>,
             background_tasks :=
               background_tasks w @ [(next_file_id (database w), ?text)]\<rparr>)
        \<and> (\<forall>other. files_table (database (snd (upload_file L w filename other)))
                    = files_table (database (snd (upload_file L w filename uploaded))))"
      by (intro conjI)
  qed
  from a b c d show ?thesis by (intro conjI)
qed

theorem upload_file_parses_before_write_witness:
  "extension_of ''report.exe'' \<notin> {''txt'', ''pdf''}
   \<and> fst (upload_file \<lparr>read_text = Some, open_pdf = (\<lambda>data. None), ocr_image = (\<lambda>data n. None)\<rparr>
        \<lparr>disk = Map.empty,
         database = \<lparr>files_table = [], file_chunks = [], next_file_id = 1,
                      next_chunk_id = 1, session_new = []\<rparr>,
         background_tasks = []\<rparr> ''report.exe'' ''bytes'')
     = Inl (HTTPException 400)
   \<and> os_path_join ''sources'' ''notes.txt'' = ''sources/notes.txt''
   \<and> extension_of ''notes.txt'' \<in> {''txt'', ''pdf''}
   \<and> upload_file \<lparr>read_text = Some, open_pdf = (\<lambda>data. None), ocr_image = (\<lambda>data n. None)\<rparr>
        \<lparr>disk = Map.empty,
         database = \<lparr>files_table = [], file_chunks = [], next_file_id = 1,
                      next_chunk_id = 1, session_new = []\<rparr>,
         background_tasks = []\<rparr> ''notes.txt'' ''new text''
     = (Inl (HTTPException 500),
        \<lparr>disk = Map.empty,
         database = \<lparr>files_table = [], file_chunks = [], next_file_id = 1,
                      next_chunk_id = 1, session_new = []\<rparr>,
         background_tasks = []\<rparr>)
   \<and> CHR ''.'' \<in> set ''notes.txt''
   \<and> fst (upload_file \<lparr>read_text = Some, open_pdf = (\<lambda>data. None), ocr_image = (\<lambda>data n. None)\<rparr>
        \<lparr>disk = [''sources/notes.txt'' \<mapsto> ''old text''],
         database = \<lparr>files_table = [], file_chunks = [], next_file_id = 1,
                      next_chunk_id = 1, session_new = []\<rparr>,
         background_tasks = []\<rparr> ''notes.txt'' ''new text'')
     = Inr (''File saved'', ''notes.txt'')
   \<and> files_table (database (snd (upload_file
        \<lparr>read_text = Some, open_pdf = (\<lambda>data. None), ocr_image = (\<lambda>data n. None)\<rparr>
        \<lparr>disk = [''sources/notes.txt'' \<mapsto> ''old text''],
         database = \<lparr>files_table = [], file_chunks = [], next_file_id = 1,
                      next_chunk_id = 1, session_new = []\<rparr>,
         background_tasks = []\<rparr> ''notes.txt'' ''new text'')))
     = [\<lparr>File.file_id = 1, file_name = ''notes.txt'', file_content = ''old text''\<rparr>]
   \<and> disk (snd (upload_file
        \<lparr>read_text = Some, open_pdf = (\<lambda>data. None), ocr_image = (\<lambda>data n. None)\<rparr>
        \<lparr>disk = [''sources/notes.txt'' \<mapsto> ''old text''],
         database = \<lparr>files_table = [], file_chunks = [], next_file_id = 1,
                      next_chunk_id = 1, session_new = []\<rparr>,
         background_tasks = []\<rparr> ''notes.txt'' ''new text'')) ''sources/notes.txt''
     = Some ''new text''"
proof -
  let ?L = "\<lparr>read_text = Some, open_pdf = (\<lambda>data. None), ocr_image = (\<lambda>data n. None)\<rparr>"
  let ?db = "\<lparr>files_table = [], file_chunks = [], next_file_id = 1, next_chunk_id = 1,
              session_new = []\<rparr>"
  let ?w0 = "\<lparr>disk = Map.empty, database = ?db, background_tasks = []\<rparr>"
  let ?w1 = "\<lparr>disk = [''sources/notes.txt'' \<mapsto> ''old text''], database = ?db,
              background_tasks = []\<rparr>"
  have e1: "extension_of ''report.exe'' \<notin> {''txt'', ''pdf''}"
    by (simp add: extension_of_def)
  have e2: "extension_of ''notes.txt'' = ''txt''"
    by (simp add: extension_of_def)
  have r2: "extension_of ''notes.txt'' \<in> {''txt'', ''pdf''}"
    by (simp add: e2)
  have rel: "take 1 ''notes.txt'' \<noteq> ''/''" by simp
  have dot: "CHR ''.'' \<in> set ''notes.txt''" by simp
  have loc: "os_path_join ''sources'' ''notes.txt'' = ''sources/notes.txt''"
    using upload_file_parses_before_write [where filename = "''notes.txt''"] rel by simp
  have a: "upload_file ?L ?w0 ''report.exe'' ''bytes'' = (Inl (HTTPException 400), ?w0)"
    using upload_file_parses_before_write
      [where filename = "''report.exe''" and L = ?L and w = ?w0 and uploaded = "''bytes''"] e1
    by blast
  have miss: "disk ?w0 (os_path_join ''sources'' ''notes.txt'') = None" by simp
  have b: "upload_file ?L ?w0 ''notes.txt'' ''new text'' = (Inl (HTTPException 500), ?w0)"
    using upload_file_parses_before_write
      [where filename = "''notes.txt''" and L = ?L and w = ?w0 and uploaded = "''new text''"]
      r2 miss
    by blast
  have stale: "disk ?w1 (os_path_join ''sources'' ''notes.txt'') = Some ''old text''"
    by (simp add: loc)
  have c: "upload_file ?L ?w1 ''notes.txt'' ''new text'' =
          (Inr (''File saved'', ''notes.txt''),
           ?w1\<lparr>disk := (disk ?w1)(os_path_join ''sources'' ''notes.txt'' \<mapsto> ''new text''),
             database := (database ?w1)
               \<lparr>files_table := files_table (database ?w1)
                  @ [\<lparr>File.file_id = next_file_id (database ?w1), file_name = ''notes.txt'',
                      file_content =
                        (if extension_of ''notes.txt'' = ''txt'' then TxtParser_parse ?L ''old text''
                         else PdfParser_parse ?L ''old text'')\<rparr>],
                next_file_id := next_file_id (database ?w1) + 1\<rparr>,
             background_tasks :=
               background_tasks ?w1
                 @ [(next_file_id (database ?w1),
                     (if extension_of ''notes.txt'' = ''txt'' then TxtParser_parse ?L ''old text''
                      else PdfParser_parse ?L ''old text''))]\<rparr>)"
    using upload_file_parses_before_write
      [where filename = "''notes.txt''" and L = ?L and w = ?w1 and uploaded = "''new text''"
         and stale = "''old text''"]
      r2 dot stale
    by blast
  have c1: "fst (upload_file ?L ?w1 ''notes.txt'' ''new text'') = Inr (''File saved'', ''notes.txt'')"
    by (simp only: c fst_conv)
  have c2: "files_table (database (snd (upload_file ?L ?w1 ''notes.txt'' ''new text'')))
      = [\<lparr>File.file_id = 1, file_name = ''notes.txt'', file_content = ''old text''\<rparr>]"
    unfolding c by (simp add: e2 TxtParser_parse_def)
  have c3: "disk (snd (upload_file ?L ?w1 ''notes.txt'' ''new text'')) ''sources/notes.txt''
      = Some ''new text''"
    unfolding c by (simp add: loc)
  have a1: "fst (upload_file ?L ?w0 ''report.exe'' ''bytes'') = Inl (HTTPException 400)"
    by (simp only: a fst_conv)
  from e1 a1 loc r2 b dot c1 c2 c3 show ?thesis
    by (intro conjI)
qed

end
